theory Spec2Isabelle
  imports Main
begin

section \<open>Phone numbers (pkg/utils/validator.go)\<close>

text \<open>
  Go strings are byte sequences; they are modelled as \<open>string\<close> (a list of characters).
  \<open>strings.ReplaceAll(s, c, "")\<close> with a one-byte pattern \<open>c\<close> deletes every occurrence
  of that byte.
\<close>

definition ReplaceAll_empty :: "char \<Rightarrow> string \<Rightarrow> string" where
  "ReplaceAll_empty c s = filter (\<lambda>x. x \<noteq> c) s"

definition HasPrefix :: "string \<Rightarrow> string \<Rightarrow> bool" where
  "HasPrefix s p = (take (length p) s = p)"

definition is_digit :: "char \<Rightarrow> bool" where
  "is_digit c = (c \<in> set ''0123456789'')"

text \<open>
  The regular expression \<^verbatim>\<open>^\+923[0-9]{9}$\<close>: the whole text is \<open>+923\<close> followed by
  exactly nine decimal digits (in Go, \<open>$\<close> without the multi-line flag matches at the end
  of the text only).
\<close>

definition phone_regex_match :: "string \<Rightarrow> bool" where
  "phone_regex_match s =
     (length s = 13 \<and> take 4 s = ''+923'' \<and> list_all is_digit (drop 4 s))"

definition ValidatePakistaniPhone :: "string \<Rightarrow> bool" where
  "ValidatePakistaniPhone phone =
     (let phone1 = ReplaceAll_empty CHR '' '' phone;
          phone2 = ReplaceAll_empty CHR ''-'' phone1
      in phone_regex_match phone2)"

definition NormalizePakistaniPhone :: "string \<Rightarrow> string" where
  "NormalizePakistaniPhone phone =
     (let phone1 = ReplaceAll_empty CHR '' '' phone;
          phone2 = ReplaceAll_empty CHR ''-'' phone1;
          phone3 = (if HasPrefix phone2 ''03'' then ''+92'' @ drop 1 phone2 else phone2);
          phone4 = (if HasPrefix phone3 ''92'' \<and> \<not> HasPrefix phone3 ''+92''
                    then ''+'' @ phone3 else phone3)
      in phone4)"

section \<open>Time\<close>

text \<open>
  Instants and durations are counted in nanoseconds, as Go's \<open>time.Duration\<close> does;
  an instant is the number of nanoseconds since the Unix epoch. Instants are unbounded
  integers here. A duration that the code computes by multiplying a count of seconds or
  minutes with the unit is computed in Go's 64-bit integers: the product wraps around
  (\<open>wrap_int64\<close>), so that a large count gives a negative or a short duration.
\<close>

type_synonym time = int
type_synonym duration = int

definition Millisecond :: duration where
  "Millisecond = 1000000"

definition Second :: duration where
  "Second = 1000000000"

definition Minute :: duration where
  "Minute = 60 * Second"

definition Hour :: duration where
  "Hour = 60 * Minute"

definition wrap_int64 :: "int \<Rightarrow> int" where
  "wrap_int64 x = (x + 2 ^ 63) mod 2 ^ 64 - 2 ^ 63"

section \<open>Domain errors (package domain)\<close>

text \<open>
  One constructor for each error value of the domain package. Errors made outside it
  (database driver, Redis client, token library, random source) are \<open>ErrExternal\<close> with
  their message; the driver's duplicate-key error and \<open>redis.Nil\<close> are told apart because
  the code tests for them.
\<close>

datatype error =
    ErrInvalidCredentials
  | ErrUserAlreadyExists
  | ErrPhoneAlreadyExists
  | ErrUserNotFound
  | ErrUserNotVerified
  | ErrUserInactive
  | ErrInvalidToken
  | ErrExpiredToken
  | ErrRevokedToken
  | ErrInvalidOTP
  | ErrExpiredOTP
  | ErrOTPNotFound
  | ErrOTPAlreadySent
  | ErrInvalidPhoneFormat
  | ErrInvalidRole
  | ErrWeakPassword
  | ErrRateLimitExceeded
  | ErrInternalServer
  | ErrBadRequest
  | ErrUnauthorized
  | ErrForbidden
  | MongoDuplicateKey
  | RedisNil
  | ErrExternal string

fun Error :: "error \<Rightarrow> string" where
  "Error ErrInvalidCredentials = ''invalid email or password''"
| "Error ErrUserAlreadyExists = ''user with this email already exists''"
| "Error ErrPhoneAlreadyExists = ''user with this phone number already exists''"
| "Error ErrUserNotFound = ''user not found''"
| "Error ErrUserNotVerified = ''user email not verified''"
| "Error ErrUserInactive = ''user account is inactive''"
| "Error ErrInvalidToken = ''invalid token''"
| "Error ErrExpiredToken = ''token has expired''"
| "Error ErrRevokedToken = ''token has been revoked''"
| "Error ErrInvalidOTP = ''invalid OTP code''"
| "Error ErrExpiredOTP = ''OTP has expired''"
| "Error ErrOTPNotFound = ''OTP not found''"
| "Error ErrOTPAlreadySent = ''OTP already sent, please wait before requesting again''"
| "Error ErrInvalidPhoneFormat =
     ''invalid Pakistani phone number format (expected: +923xxxxxxxxx)''"
| "Error ErrInvalidRole = ''invalid role''"
| "Error ErrWeakPassword = ''password must be at least 8 characters''"
| "Error ErrRateLimitExceeded = ''rate limit exceeded, please try again later''"
| "Error ErrInternalServer = ''internal server error''"
| "Error ErrBadRequest = ''bad request''"
| "Error ErrUnauthorized = ''unauthorized''"
| "Error ErrForbidden = ''forbidden: insufficient permissions''"
| "Error MongoDuplicateKey = ''E11000 duplicate key error''"
| "Error RedisNil = ''redis: nil''"
| "Error (ErrExternal msg) = msg"

section \<open>Entities (internal/domain/auth/entity.go)\<close>

text \<open>
  An ObjectID is a 96-bit value, modelled by the natural number it denotes; \<open>Hex\<close> prints
  it as 24 lower-case hexadecimal digits and \<open>ObjectIDFromHex\<close> reads 24 hexadecimal
  digits of either case.
\<close>

type_synonym ObjectID = nat

definition hex_digit :: "nat \<Rightarrow> char" where
  "hex_digit n = ''0123456789abcdef'' ! (n mod 16)"

fun hex_of :: "nat \<Rightarrow> nat \<Rightarrow> string" where
  "hex_of 0 n = []"
| "hex_of (Suc k) n = hex_of k (n div 16) @ [hex_digit n]"

definition Hex :: "ObjectID \<Rightarrow> string" where
  "Hex i = hex_of 24 i"

definition hex_val :: "char \<Rightarrow> nat option" where
  "hex_val c =
     (let n = (of_char c :: nat)
      in if 48 \<le> n \<and> n \<le> 57 then Some (n - 48)
         else if 97 \<le> n \<and> n \<le> 102 then Some (n - 87)
         else if 65 \<le> n \<and> n \<le> 70 then Some (n - 55)
         else None)"

fun hex_decode :: "string \<Rightarrow> nat \<Rightarrow> nat option" where
  "hex_decode [] acc = Some acc"
| "hex_decode (c # cs) acc =
     (case hex_val c of None \<Rightarrow> None | Some d \<Rightarrow> hex_decode cs (16 * acc + d))"

definition ObjectIDFromHex :: "string \<Rightarrow> error + ObjectID" where
  "ObjectIDFromHex s =
     (if length s \<noteq> 24 then Inl (ErrExternal ''the provided hex string is not a valid ObjectID'')
      else case hex_decode s 0 of
             None \<Rightarrow> Inl (ErrExternal ''encoding/hex: invalid byte'')
           | Some i \<Rightarrow> Inr i)"

type_synonym Role = string

definition RoleAdmin :: Role where "RoleAdmin = ''admin''"
definition RoleCustomer :: Role where "RoleCustomer = ''customer''"
definition RoleFinanceManager :: Role where "RoleFinanceManager = ''finance_manager''"
definition RoleManager :: Role where "RoleManager = ''manager''"

definition IsValidRole :: "Role \<Rightarrow> bool" where
  "IsValidRole role =
     (role = RoleAdmin \<or> role = RoleCustomer \<or> role = RoleFinanceManager \<or> role = RoleManager)"

record User =
  ID :: ObjectID
  Email :: string
  Phone :: string
  Password :: string
  FirstName :: string
  LastName :: string
  Role :: Role
  IsVerified :: bool
  IsActive :: bool
  CreatedAt :: time
  UpdatedAt :: time
  LastLoginAt :: "time option"

record UserInfo =
  ID :: string
  Email :: string
  Phone :: string
  FirstName :: string
  LastName :: string
  Role :: Role
  IsVerified :: bool
  CreatedAt :: time

definition ToUserInfo :: "User \<Rightarrow> UserInfo" where
  "ToUserInfo u =
     \<lparr> UserInfo.ID = Hex (User.ID u),
       UserInfo.Email = User.Email u,
       UserInfo.Phone = User.Phone u,
       UserInfo.FirstName = User.FirstName u,
       UserInfo.LastName = User.LastName u,
       UserInfo.Role = User.Role u,
       UserInfo.IsVerified = User.IsVerified u,
       UserInfo.CreatedAt = User.CreatedAt u \<rparr>"

record RegisterRequest =
  Email :: string
  Phone :: string
  Password :: string
  FirstName :: string
  LastName :: string
  Role :: Role

record LoginRequest =
  Email :: string
  Password :: string

record VerifyOTPRequest =
  Email :: string
  Code :: string

section \<open>Tokens (JWTUtil, package utils)\<close>

text \<open>
  The token library is outside the repository. A token string is modelled by what it
  encodes: the signing method of its header, its claims, and its signature, the
  signature being the symbolic term of a message authentication code computed with a
  method and a key over the claims. Text that does not decode to these three parts is
  \<open>Malformed\<close>. Verifying a signature is comparing it with the code recomputed from
  the verifier's key.
\<close>

datatype SigningMethod = HS256 | HS384 | HS512 | OtherMethod string

record JWTClaims =
  UserID :: string
  Email :: string
  Role :: string
  ExpiresAt :: "time option"
  IssuedAt :: "time option"
  NotBefore :: "time option"

datatype signature = HMAC SigningMethod string JWTClaims

datatype token = Malformed string | JWT SigningMethod JWTClaims signature

record JWTUtil =
  secretKey :: string
  accessTokenExpiration :: duration
  refreshTokenExpiration :: duration

definition NewJWTUtil :: "string \<Rightarrow> duration \<Rightarrow> duration \<Rightarrow> JWTUtil" where
  "NewJWTUtil secret accessExp refreshExp =
     \<lparr> secretKey = secret,
       accessTokenExpiration = accessExp,
       refreshTokenExpiration = refreshExp \<rparr>"

text \<open>\<open>jwt.NewNumericDate\<close> truncates an instant to whole seconds.\<close>

definition NewNumericDate :: "time \<Rightarrow> time" where
  "NewNumericDate t = (t div Second) * Second"

text \<open>\<open>SignedString\<close> with an HMAC method and a byte-slice key does not fail.\<close>

definition SignedString :: "SigningMethod \<Rightarrow> JWTClaims \<Rightarrow> string \<Rightarrow> error + token" where
  "SignedString m claims key = Inr (JWT m claims (HMAC m key claims))"

text \<open>
  The current instant is an argument: the three \<open>time.Now()\<close> readings of one call are
  taken to be the same instant.
\<close>

definition GenerateAccessToken ::
  "JWTUtil \<Rightarrow> ObjectID \<Rightarrow> string \<Rightarrow> string \<Rightarrow> time \<Rightarrow> error + token" where
  "GenerateAccessToken j userID email role t =
     (let claims = \<lparr> JWTClaims.UserID = Hex userID,
                      JWTClaims.Email = email,
                      JWTClaims.Role = role,
                      JWTClaims.ExpiresAt = Some (NewNumericDate (t + accessTokenExpiration j)),
                      JWTClaims.IssuedAt = Some (NewNumericDate t),
                      JWTClaims.NotBefore = Some (NewNumericDate t) \<rparr>
      in SignedString HS256 claims (secretKey j))"

definition GenerateRefreshToken :: "JWTUtil \<Rightarrow> ObjectID \<Rightarrow> time \<Rightarrow> error + token" where
  "GenerateRefreshToken j userID t =
     (let claims = \<lparr> JWTClaims.UserID = Hex userID,
                      JWTClaims.Email = [],
                      JWTClaims.Role = [],
                      JWTClaims.ExpiresAt = Some (NewNumericDate (t + refreshTokenExpiration j)),
                      JWTClaims.IssuedAt = Some (NewNumericDate t),
                      JWTClaims.NotBefore = Some (NewNumericDate t) \<rparr>
      in SignedString HS256 claims (secretKey j))"

definition is_SigningMethodHMAC :: "SigningMethod \<Rightarrow> bool" where
  "is_SigningMethodHMAC m = (m = HS256 \<or> m = HS384 \<or> m = HS512)"

text \<open>
  \<open>jwt.ParseWithClaims\<close> with the key function of \<open>ValidateToken\<close>: decode, ask the key
  function for the key (it refuses every method that is not an HMAC), verify the
  signature, then validate the registered claims at the current instant: a token is
  expired unless now is before \<open>exp\<close>, and not yet valid when now is before \<open>nbf\<close>;
  \<open>iat\<close> is not checked. Every failure is an error; on success the token is valid, so
  the final \<open>invalid token\<close> return of \<open>ValidateToken\<close> is not reached.
\<close>

definition ValidateToken :: "JWTUtil \<Rightarrow> token \<Rightarrow> time \<Rightarrow> error + JWTClaims" where
  "ValidateToken j tokenString t =
     (case tokenString of
        Malformed _ \<Rightarrow> Inl (ErrExternal ''token is malformed'')
      | JWT m claims sig \<Rightarrow>
          if \<not> is_SigningMethodHMAC m then Inl (ErrExternal ''unexpected signing method'')
          else if sig \<noteq> HMAC m (secretKey j) claims
            then Inl (ErrExternal ''signature is invalid'')
          else if (case JWTClaims.ExpiresAt claims of None \<Rightarrow> False | Some e \<Rightarrow> \<not> t < e)
            then Inl (ErrExternal ''token is expired'')
          else if (case JWTClaims.NotBefore claims of None \<Rightarrow> False | Some n \<Rightarrow> t < n)
            then Inl (ErrExternal ''token is not valid yet'')
          else Inr claims)"

definition GetRefreshTokenExpiration :: "JWTUtil \<Rightarrow> duration" where
  "GetRefreshTokenExpiration j = refreshTokenExpiration j"

record RefreshToken =
  ID :: ObjectID
  UserID :: ObjectID
  Token :: token
  ExpiresAt :: time
  CreatedAt :: time
  IsRevoked :: bool

record RefreshTokenRequest =
  RefreshToken :: token

record AuthResponse =
  AccessToken :: token
  RefreshToken :: token
  User :: UserInfo

section \<open>The stores and their clients\<close>

text \<open>
  The state the use cases act on: the clock, the two MongoDB collections (documents in
  insertion order), the Redis keyspace, the source of fresh ObjectIDs, the random
  source, the messages handed to the email collaborator, and the outcome still to come
  of every call that leaves the process.

  A Redis value is the string a client wrote or the integer a counter holds; a key may
  carry the instant at which it expires.

  \<open>faults\<close> lists, for the calls to a store or to the email collaborator that are still
  to be made, whether the call fails in transport (\<open>True\<close>); once the list is used up
  every call goes through. \<open>entropy\<close> lists the values the random source will still
  deliver; reading past its end is the reader's error.
\<close>

datatype redis_value = RString string | RInt int

record world =
  now :: time
  users :: "User list"
  refresh_tokens :: "RefreshToken list"
  redis :: "string \<Rightarrow> (redis_value \<times> time option) option"
  next_oid :: ObjectID
  entropy :: "nat list"
  outbox :: "(string \<times> string) list"
  faults :: "bool list"

definition io_call :: "world \<Rightarrow> bool \<times> world" where
  "io_call w = (case faults w of [] \<Rightarrow> (False, w) | f # fs \<Rightarrow> (f, w\<lparr>faults := fs\<rparr>))"

subsection \<open>MongoDB collections\<close>

text \<open>
  \<open>FindOne\<close> returns the first document that matches, \<open>UpdateOne\<close> changes the first
  document that matches and is no error when none does, \<open>UpdateMany\<close> changes all of
  them. \<open>InsertOne\<close> gives the document a fresh ObjectID (every caller passes the zero
  ID, which is omitted from the document) and refuses a document that collides on a
  unique index: email and phone for users, the token string for refresh tokens
  (\<open>CreateIndexes\<close>). A stored instant keeps milliseconds only.
\<close>

definition bson_time :: "time \<Rightarrow> time" where
  "bson_time t = (t div Millisecond) * Millisecond"

fun update_first :: "('a \<Rightarrow> bool) \<Rightarrow> ('a \<Rightarrow> 'a) \<Rightarrow> 'a list \<Rightarrow> 'a list" where
  "update_first P f [] = []"
| "update_first P f (x # xs) = (if P x then f x # xs else x # update_first P f xs)"

definition mongo_error :: error where
  "mongo_error = ErrExternal ''mongo: server selection error''"

definition IsDuplicateKeyError :: "error \<Rightarrow> bool" where
  "IsDuplicateKeyError e = (e = MongoDuplicateKey)"

definition users_InsertOne :: "User \<Rightarrow> world \<Rightarrow> (error + ObjectID) \<times> world" where
  "users_InsertOne u w =
     (case io_call w of
        (True, w1) \<Rightarrow> (Inl mongo_error, w1)
      | (False, w1) \<Rightarrow>
          if list_ex (\<lambda>x. User.Email x = User.Email u \<or> User.Phone x = User.Phone u) (users w1)
          then (Inl MongoDuplicateKey, w1)
          else (Inr (next_oid w1),
                w1\<lparr>users := users w1 @ [u\<lparr>User.ID := next_oid w1,
                                              User.CreatedAt := bson_time (User.CreatedAt u),
                                              User.UpdatedAt := bson_time (User.UpdatedAt u),
                                              User.LastLoginAt := map_option bson_time (User.LastLoginAt u)\<rparr>],
                    next_oid := Suc (next_oid w1)\<rparr>))"

definition users_FindOne :: "(User \<Rightarrow> bool) \<Rightarrow> world \<Rightarrow> (error option \<times> User option) \<times> world" where
  "users_FindOne P w =
     (case io_call w of
        (True, w1) \<Rightarrow> ((Some mongo_error, None), w1)
      | (False, w1) \<Rightarrow> ((None, find P (users w1)), w1))"

definition users_UpdateOne :: "(User \<Rightarrow> bool) \<Rightarrow> (User \<Rightarrow> User) \<Rightarrow> world \<Rightarrow> error option \<times> world" where
  "users_UpdateOne P f w =
     (case io_call w of
        (True, w1) \<Rightarrow> (Some mongo_error, w1)
      | (False, w1) \<Rightarrow> (None, w1\<lparr>users := update_first P f (users w1)\<rparr>))"

definition refresh_tokens_InsertOne :: "RefreshToken \<Rightarrow> world \<Rightarrow> (error + ObjectID) \<times> world" where
  "refresh_tokens_InsertOne r w =
     (case io_call w of
        (True, w1) \<Rightarrow> (Inl mongo_error, w1)
      | (False, w1) \<Rightarrow>
          if list_ex (\<lambda>x. Token x = Token r) (refresh_tokens w1)
          then (Inl MongoDuplicateKey, w1)
          else (Inr (next_oid w1),
                w1\<lparr>refresh_tokens := refresh_tokens w1 @
                      [r\<lparr>RefreshToken.ID := next_oid w1,
                         RefreshToken.ExpiresAt := bson_time (RefreshToken.ExpiresAt r),
                         RefreshToken.CreatedAt := bson_time (RefreshToken.CreatedAt r)\<rparr>],
                    next_oid := Suc (next_oid w1)\<rparr>))"

definition refresh_tokens_FindOne ::
  "(RefreshToken \<Rightarrow> bool) \<Rightarrow> world \<Rightarrow> (error option \<times> RefreshToken option) \<times> world" where
  "refresh_tokens_FindOne P w =
     (case io_call w of
        (True, w1) \<Rightarrow> ((Some mongo_error, None), w1)
      | (False, w1) \<Rightarrow> ((None, find P (refresh_tokens w1)), w1))"

definition refresh_tokens_UpdateOne ::
  "(RefreshToken \<Rightarrow> bool) \<Rightarrow> (RefreshToken \<Rightarrow> RefreshToken) \<Rightarrow> world \<Rightarrow> error option \<times> world" where
  "refresh_tokens_UpdateOne P f w =
     (case io_call w of
        (True, w1) \<Rightarrow> (Some mongo_error, w1)
      | (False, w1) \<Rightarrow> (None, w1\<lparr>refresh_tokens := update_first P f (refresh_tokens w1)\<rparr>))"

definition refresh_tokens_UpdateMany ::
  "(RefreshToken \<Rightarrow> bool) \<Rightarrow> (RefreshToken \<Rightarrow> RefreshToken) \<Rightarrow> world \<Rightarrow> error option \<times> world" where
  "refresh_tokens_UpdateMany P f w =
     (case io_call w of
        (True, w1) \<Rightarrow> (Some mongo_error, w1)
      | (False, w1) \<Rightarrow>
          (None, w1\<lparr>refresh_tokens := map (\<lambda>x. if P x then f x else x) (refresh_tokens w1)\<rparr>))"

subsection \<open>User repository (internal/repository/mongodb/user_repository.go)\<close>

text \<open>
  \<open>Create\<close> writes the timestamps and the inserted ID into the user it was given; the
  model returns that user. A lookup that finds no document is \<open>ErrUserNotFound\<close>.
\<close>

definition UserRepositoryImpl_Create :: "User \<Rightarrow> world \<Rightarrow> (error + User) \<times> world" where
  "UserRepositoryImpl_Create user w =
     (let user1 = user\<lparr>User.CreatedAt := now w, User.UpdatedAt := now w\<rparr>
      in case users_InsertOne user1 w of
           (Inl err, w1) \<Rightarrow>
             if IsDuplicateKeyError err then (Inl ErrUserAlreadyExists, w1) else (Inl err, w1)
         | (Inr insertedID, w1) \<Rightarrow> (Inr (user1\<lparr>User.ID := insertedID\<rparr>), w1))"

definition Decode_user :: "(error option \<times> User option) \<Rightarrow> error + User" where
  "Decode_user r =
     (case r of
        (Some err, _) \<Rightarrow> Inl err
      | (None, None) \<Rightarrow> Inl ErrUserNotFound
      | (None, Some user) \<Rightarrow> Inr user)"

definition UserRepositoryImpl_FindByEmail :: "string \<Rightarrow> world \<Rightarrow> (error + User) \<times> world" where
  "UserRepositoryImpl_FindByEmail email w =
     (case users_FindOne (\<lambda>u. User.Email u = email) w of (r, w1) \<Rightarrow> (Decode_user r, w1))"

definition UserRepositoryImpl_FindByID :: "ObjectID \<Rightarrow> world \<Rightarrow> (error + User) \<times> world" where
  "UserRepositoryImpl_FindByID oid w =
     (case users_FindOne (\<lambda>u. User.ID u = oid) w of (r, w1) \<Rightarrow> (Decode_user r, w1))"

definition UserRepositoryImpl_FindByPhone :: "string \<Rightarrow> world \<Rightarrow> (error + User) \<times> world" where
  "UserRepositoryImpl_FindByPhone phone w =
     (case users_FindOne (\<lambda>u. User.Phone u = phone) w of (r, w1) \<Rightarrow> (Decode_user r, w1))"

definition UserRepositoryImpl_Update :: "User \<Rightarrow> world \<Rightarrow> error option \<times> world" where
  "UserRepositoryImpl_Update user w =
     (let user1 = user\<lparr>User.UpdatedAt := now w\<rparr>
      in users_UpdateOne (\<lambda>u. User.ID u = User.ID user1)
           (\<lambda>_. user1\<lparr>User.CreatedAt := bson_time (User.CreatedAt user1),
                       User.UpdatedAt := bson_time (User.UpdatedAt user1),
                       User.LastLoginAt := map_option bson_time (User.LastLoginAt user1)\<rparr>) w)"

definition UserRepositoryImpl_UpdateVerificationStatus ::
  "string \<Rightarrow> bool \<Rightarrow> world \<Rightarrow> error option \<times> world" where
  "UserRepositoryImpl_UpdateVerificationStatus email isVerified w =
     users_UpdateOne (\<lambda>u. User.Email u = email)
       (\<lambda>u. u\<lparr>User.IsVerified := isVerified, User.UpdatedAt := bson_time (now w)\<rparr>) w"

definition UserRepositoryImpl_UpdateLastLogin :: "ObjectID \<Rightarrow> world \<Rightarrow> error option \<times> world" where
  "UserRepositoryImpl_UpdateLastLogin userID w =
     users_UpdateOne (\<lambda>u. User.ID u = userID)
       (\<lambda>u. u\<lparr>User.LastLoginAt := Some (bson_time (now w)),
              User.UpdatedAt := bson_time (now w)\<rparr>) w"

subsection \<open>Refresh token repository (RefreshTokenRepositoryImpl)\<close>

definition RefreshTokenRepositoryImpl_Create ::
  "RefreshToken \<Rightarrow> world \<Rightarrow> (error + RefreshToken) \<times> world" where
  "RefreshTokenRepositoryImpl_Create token w =
     (let token1 = token\<lparr>RefreshToken.CreatedAt := now w\<rparr>
      in case refresh_tokens_InsertOne token1 w of
           (Inl err, w1) \<Rightarrow> (Inl err, w1)
         | (Inr insertedID, w1) \<Rightarrow> (Inr (token1\<lparr>RefreshToken.ID := insertedID\<rparr>), w1))"

definition RefreshTokenRepositoryImpl_FindByToken ::
  "token \<Rightarrow> world \<Rightarrow> (error + RefreshToken) \<times> world" where
  "RefreshTokenRepositoryImpl_FindByToken token w =
     (case refresh_tokens_FindOne (\<lambda>r. Token r = token) w of
        ((Some err, _), w1) \<Rightarrow> (Inl err, w1)
      | ((None, None), w1) \<Rightarrow> (Inl ErrInvalidToken, w1)
      | ((None, Some refreshToken), w1) \<Rightarrow> (Inr refreshToken, w1))"

definition RefreshTokenRepositoryImpl_Revoke :: "token \<Rightarrow> world \<Rightarrow> error option \<times> world" where
  "RefreshTokenRepositoryImpl_Revoke token w =
     refresh_tokens_UpdateOne (\<lambda>r. Token r = token) (\<lambda>r. r\<lparr>IsRevoked := True\<rparr>) w"

definition RefreshTokenRepositoryImpl_RevokeAllForUser ::
  "ObjectID \<Rightarrow> world \<Rightarrow> error option \<times> world" where
  "RefreshTokenRepositoryImpl_RevokeAllForUser userID w =
     refresh_tokens_UpdateMany (\<lambda>r. RefreshToken.UserID r = userID \<and> \<not> IsRevoked r)
       (\<lambda>r. r\<lparr>IsRevoked := True\<rparr>) w"

subsection \<open>Redis client (pkg/database/redis)\<close>

text \<open>
  A key whose expiry instant has been reached is absent to every command. \<open>SET\<close> with a
  positive expiration sets the expiry (whole seconds as \<open>EX\<close>, anything else in
  milliseconds as \<open>PX\<close>), with \<open>KeepTTL = -1\<close> keeps the one the key has, and otherwise
  stores the key without expiry. \<open>INCR\<close> creates an absent key as 1 without expiry and
  keeps the expiry of a present one. \<open>EXPIRE\<close> is sent in whole seconds (a positive
  duration under a second as one second) and deletes the key when the duration is not
  positive. A value is kept as the string that was set or as the integer a counter
  holds; read the other way round it is converted in decimal, as \<open>strconv\<close> does.
\<close>

definition redis_error :: error where
  "redis_error = ErrExternal ''redis: connection refused''"

definition redis_lookup :: "world \<Rightarrow> string \<Rightarrow> (redis_value \<times> time option) option" where
  "redis_lookup w key =
     (case redis w key of
        None \<Rightarrow> None
      | Some (v, None) \<Rightarrow> Some (v, None)
      | Some (v, Some t) \<Rightarrow> if t \<le> now w then None else Some (v, Some t))"

function decimal :: "nat \<Rightarrow> string" where
  "decimal n = (if n < 10 then [hex_digit n] else decimal (n div 10) @ [hex_digit (n mod 10)])"
  by pat_completeness auto
termination
  by (relation "measure (\<lambda>n. n)") auto

declare decimal.simps [simp del]

definition Itoa :: "int \<Rightarrow> string" where
  "Itoa i = (if i < 0 then CHR ''-'' # decimal (nat (- i)) else decimal (nat i))"

fun digits_value :: "string \<Rightarrow> nat \<Rightarrow> nat option" where
  "digits_value [] acc = Some acc"
| "digits_value (c # cs) acc =
     (if is_digit c then digits_value cs (10 * acc + (of_char c - 48)) else None)"

definition Atoi :: "string \<Rightarrow> error + int" where
  "Atoi s =
     (let neg = (s \<noteq> [] \<and> hd s = CHR ''-'');
          body = (if s \<noteq> [] \<and> (hd s = CHR ''-'' \<or> hd s = CHR ''+'') then tl s else s)
      in if body = [] then Inl (ErrExternal ''strconv.Atoi: invalid syntax'')
         else case digits_value body 0 of
                None \<Rightarrow> Inl (ErrExternal ''strconv.Atoi: invalid syntax'')
              | Some n \<Rightarrow>
                  (let v = (if neg then - int n else int n)
                   in if v < - (2 ^ 63) \<or> 2 ^ 63 - 1 < v
                      then Inl (ErrExternal ''strconv.Atoi: value out of range'')
                      else Inr v))"

definition redis_string :: "redis_value \<Rightarrow> string" where
  "redis_string v = (case v of RString s \<Rightarrow> s | RInt n \<Rightarrow> Itoa n)"

definition redis_int :: "redis_value \<Rightarrow> error + int" where
  "redis_int v = (case v of RString s \<Rightarrow> Atoi s | RInt n \<Rightarrow> Inr n)"

definition set_expiry :: "world \<Rightarrow> string \<Rightarrow> duration \<Rightarrow> time option" where
  "set_expiry w key expiration =
     (if 0 < expiration then
        (if expiration < Second \<or> expiration mod Second \<noteq> 0
         then Some (now w + (if expiration < Millisecond then 1 else expiration div Millisecond)
                            * Millisecond)
         else Some (now w + (expiration div Second) * Second))
      else if expiration = - 1 then
        (case redis_lookup w key of None \<Rightarrow> None | Some (_, ttl) \<Rightarrow> ttl)
      else None)"

definition Client_Set :: "string \<Rightarrow> string \<Rightarrow> duration \<Rightarrow> world \<Rightarrow> error option \<times> world" where
  "Client_Set key val expiration w =
     (case io_call w of
        (True, w1) \<Rightarrow> (Some redis_error, w1)
      | (False, w1) \<Rightarrow>
          (None, w1\<lparr>redis := (redis w1)(key \<mapsto> (RString val, set_expiry w1 key expiration))\<rparr>))"

definition Client_Get :: "string \<Rightarrow> world \<Rightarrow> (error + string) \<times> world" where
  "Client_Get key w =
     (case io_call w of
        (True, w1) \<Rightarrow> (Inl redis_error, w1)
      | (False, w1) \<Rightarrow>
          (case redis_lookup w1 key of
             None \<Rightarrow> (Inl RedisNil, w1)
           | Some (v, _) \<Rightarrow> (Inr (redis_string v), w1)))"

text \<open>
  \<open>GetClient().Get(ctx, key).Int()\<close>: the value read as an integer; on an error the
  integer is 0 and the error is returned beside it.
\<close>

definition Client_Get_Int :: "string \<Rightarrow> world \<Rightarrow> (int \<times> error option) \<times> world" where
  "Client_Get_Int key w =
     (case io_call w of
        (True, w1) \<Rightarrow> ((0, Some redis_error), w1)
      | (False, w1) \<Rightarrow>
          (case redis_lookup w1 key of
             None \<Rightarrow> ((0, Some RedisNil), w1)
           | Some (v, _) \<Rightarrow>
               (case redis_int v of Inl err \<Rightarrow> ((0, Some err), w1) | Inr n \<Rightarrow> ((n, None), w1))))"

definition Client_Delete :: "string \<Rightarrow> world \<Rightarrow> error option \<times> world" where
  "Client_Delete key w =
     (case io_call w of
        (True, w1) \<Rightarrow> (Some redis_error, w1)
      | (False, w1) \<Rightarrow> (None, w1\<lparr>redis := (redis w1)(key := None)\<rparr>))"

definition Client_Exists :: "string \<Rightarrow> world \<Rightarrow> (error + bool) \<times> world" where
  "Client_Exists key w =
     (case io_call w of
        (True, w1) \<Rightarrow> (Inl redis_error, w1)
      | (False, w1) \<Rightarrow> (Inr (redis_lookup w1 key \<noteq> None), w1))"

definition Client_Increment :: "string \<Rightarrow> world \<Rightarrow> (error + int) \<times> world" where
  "Client_Increment key w =
     (case io_call w of
        (True, w1) \<Rightarrow> (Inl redis_error, w1)
      | (False, w1) \<Rightarrow>
          (case redis_lookup w1 key of
             None \<Rightarrow> (Inr 1, w1\<lparr>redis := (redis w1)(key \<mapsto> (RInt 1, None))\<rparr>)
           | Some (v, ttl) \<Rightarrow>
               (case redis_int v of
                  Inl err \<Rightarrow> (Inl (ErrExternal ''ERR value is not an integer or out of range''), w1)
                | Inr n \<Rightarrow>
                    if n = 2 ^ 63 - 1
                    then (Inl (ErrExternal ''ERR increment or decrement would overflow''), w1)
                    else (Inr (n + 1), w1\<lparr>redis := (redis w1)(key \<mapsto> (RInt (n + 1), ttl))\<rparr>))))"

definition Client_Expire :: "string \<Rightarrow> duration \<Rightarrow> world \<Rightarrow> error option \<times> world" where
  "Client_Expire key expiration w =
     (case io_call w of
        (True, w1) \<Rightarrow> (Some redis_error, w1)
      | (False, w1) \<Rightarrow>
          (case redis_lookup w1 key of
             None \<Rightarrow> (None, w1)
           | Some (v, _) \<Rightarrow>
               if expiration \<le> 0 then (None, w1\<lparr>redis := (redis w1)(key := None)\<rparr>)
               else (let secs = (if expiration < Second then 1 else expiration div Second)
                     in (None, w1\<lparr>redis := (redis w1)(key \<mapsto> (v, Some (now w1 + secs * Second)))\<rparr>))))"

subsection \<open>OTP repository (internal/repository/redis/otp_repository.go)\<close>

definition otp_key :: "string \<Rightarrow> string" where
  "otp_key email = ''otp:'' @ email"

definition OTPRepositoryImpl_Store :: "string \<Rightarrow> string \<Rightarrow> int \<Rightarrow> world \<Rightarrow> error option \<times> world" where
  "OTPRepositoryImpl_Store email code ttlMinutes w =
     Client_Set (otp_key email) code (wrap_int64 (ttlMinutes * Minute)) w"

definition OTPRepositoryImpl_Get :: "string \<Rightarrow> world \<Rightarrow> (error + string) \<times> world" where
  "OTPRepositoryImpl_Get email w = Client_Get (otp_key email) w"

definition OTPRepositoryImpl_Delete :: "string \<Rightarrow> world \<Rightarrow> error option \<times> world" where
  "OTPRepositoryImpl_Delete email w = Client_Delete (otp_key email) w"

definition OTPRepositoryImpl_Exists :: "string \<Rightarrow> world \<Rightarrow> (error + bool) \<times> world" where
  "OTPRepositoryImpl_Exists email w = Client_Exists (otp_key email) w"

subsection \<open>Rate limiter repository (RateLimiterRepositoryImpl)\<close>

definition rate_limit_key :: "string \<Rightarrow> string" where
  "rate_limit_key key = ''rate_limit:'' @ key"

definition CheckRateLimit :: "string \<Rightarrow> int \<Rightarrow> int \<Rightarrow> world \<Rightarrow> (error + bool) \<times> world" where
  "CheckRateLimit key limit windowSeconds w =
     (let rateLimitKey = rate_limit_key key
      in case Client_Get_Int rateLimitKey w of
           ((count, err), w1) \<Rightarrow>
             if (case err of None \<Rightarrow> False | Some e \<Rightarrow> Error e \<noteq> ''redis: nil'')
             then (Inl (the err), w1)
             else if count \<ge> limit then (Inr False, w1)
             else (Inr True, w1))"

definition IncrementCounter :: "string \<Rightarrow> int \<Rightarrow> world \<Rightarrow> error option \<times> world" where
  "IncrementCounter key windowSeconds w =
     (let rateLimitKey = rate_limit_key key
      in case Client_Increment rateLimitKey w of
           (Inl err, w1) \<Rightarrow> (Some err, w1)
         | (Inr count, w1) \<Rightarrow>
             if count = 1 then
               (case Client_Expire rateLimitKey (wrap_int64 (windowSeconds * Second)) w1 of
                  (Some err, w2) \<Rightarrow> (Some err, w2)
                | (None, w2) \<Rightarrow> (None, w2))
             else (None, w1))"

subsection \<open>Email service (the \<open>EmailService\<close> interface)\<close>

text \<open>
  \<open>SendOTP(email, code) -> error\<close> is the contract of the collaborator: the message is
  handed over, or the call fails. The repository's own \<open>EmailServiceImpl\<close> logs the
  message and returns nil; it is the case in which no fault is pending.
\<close>

definition SendOTP :: "string \<Rightarrow> string \<Rightarrow> world \<Rightarrow> error option \<times> world" where
  "SendOTP email code w =
     (case io_call w of
        (True, w1) \<Rightarrow> (Some (ErrExternal ''smtp: delivery failed''), w1)
      | (False, w1) \<Rightarrow> (None, w1\<lparr>outbox := outbox w1 @ [(email, code)]\<rparr>))"

subsection \<open>OTP generation (GenerateOTP)\<close>

definition rand_Int :: "nat \<Rightarrow> world \<Rightarrow> (error + nat) \<times> world" where
  "rand_Int bound w =
     (case entropy w of
        [] \<Rightarrow> (Inl (ErrExternal ''crypto/rand: unexpected EOF''), w)
      | x # xs \<Rightarrow> (Inr (x mod bound), w\<lparr>entropy := xs\<rparr>))"

definition digits :: string where
  "digits = ''0123456789''"

text \<open>The loop over the \<open>length\<close> bytes of the code, one random digit each.\<close>

fun GenerateOTP_loop :: "nat \<Rightarrow> world \<Rightarrow> (error + string) \<times> world" where
  "GenerateOTP_loop 0 w = (Inr [], w)"
| "GenerateOTP_loop (Suc n) w =
     (case rand_Int (length digits) w of
        (Inl err, w1) \<Rightarrow> (Inl err, w1)
      | (Inr num, w1) \<Rightarrow>
          (case GenerateOTP_loop n w1 of
             (Inl err, w2) \<Rightarrow> (Inl err, w2)
           | (Inr otp, w2) \<Rightarrow> (Inr (digits ! num # otp), w2)))"

definition GenerateOTP :: "int \<Rightarrow> world \<Rightarrow> (error + string) \<times> world" where
  "GenerateOTP len w =
     (if len \<le> 0 then (Inl (ErrExternal ''OTP length must be positive''), w)
      else GenerateOTP_loop (nat len) w)"

section \<open>Auth use case (internal/usecase/auth_usecase.go)\<close>

text \<open>
  The use case holds the token utility and the OTP configuration. The repositories and
  the email service are the ones wired in \<open>NewContainer\<close>, modelled above.

  \<open>HashPassword\<close> and \<open>CheckPassword\<close> of package \<open>utils\<close> are not among the source
  files; they are taken as parameters, carried in the same record.
\<close>

record AuthUseCaseImpl =
  jwtUtil :: JWTUtil
  otpLength :: int
  otpExpireMinutes :: int
  HashPassword :: "string \<Rightarrow> error + string"
  CheckPassword :: "string \<Rightarrow> string \<Rightarrow> bool"

definition Register ::
  "AuthUseCaseImpl \<Rightarrow> RegisterRequest \<Rightarrow> world \<Rightarrow> (error + User) \<times> world" where
  "Register uc req w =
     (let normalizedPhone = NormalizePakistaniPhone (RegisterRequest.Phone req)
      in if \<not> ValidatePakistaniPhone normalizedPhone then (Inl ErrInvalidPhoneFormat, w)
         else if \<not> IsValidRole (RegisterRequest.Role req) then (Inl ErrInvalidRole, w)
         else
           case UserRepositoryImpl_FindByEmail (RegisterRequest.Email req) w of
             (Inr existingUser, w1) \<Rightarrow> (Inl ErrUserAlreadyExists, w1)
           | (Inl _, w1) \<Rightarrow>
           case UserRepositoryImpl_FindByPhone normalizedPhone w1 of
             (Inr existingPhone, w2) \<Rightarrow> (Inl ErrPhoneAlreadyExists, w2)
           | (Inl _, w2) \<Rightarrow>
           case HashPassword uc (RegisterRequest.Password req) of
             Inl err \<Rightarrow> (Inl err, w2)
           | Inr hashedPassword \<Rightarrow>
           let user = \<lparr> User.ID = 0,
                         User.Email = RegisterRequest.Email req,
                         User.Phone = normalizedPhone,
                         User.Password = hashedPassword,
                         User.FirstName = RegisterRequest.FirstName req,
                         User.LastName = RegisterRequest.LastName req,
                         User.Role = RegisterRequest.Role req,
                         User.IsVerified = False,
                         User.IsActive = True,
                         User.CreatedAt = now w2,
                         User.UpdatedAt = now w2,
                         User.LastLoginAt = None \<rparr>
           in
           case UserRepositoryImpl_Create user w2 of
             (Inl err, w3) \<Rightarrow> (Inl err, w3)
           | (Inr user1, w3) \<Rightarrow>
           case GenerateOTP (otpLength uc) w3 of
             (Inl err, w4) \<Rightarrow> (Inl err, w4)
           | (Inr otp, w4) \<Rightarrow>
           case OTPRepositoryImpl_Store (RegisterRequest.Email req) otp (otpExpireMinutes uc) w4 of
             (Some err, w5) \<Rightarrow> (Inl err, w5)
           | (None, w5) \<Rightarrow>
           case SendOTP (RegisterRequest.Email req) otp w5 of
             (Some err, w6) \<Rightarrow> (Inl err, w6)
           | (None, w6) \<Rightarrow> (Inr user1, w6))"

definition Login ::
  "AuthUseCaseImpl \<Rightarrow> LoginRequest \<Rightarrow> world \<Rightarrow> (error + AuthResponse) \<times> world" where
  "Login uc req w =
     (case UserRepositoryImpl_FindByEmail (LoginRequest.Email req) w of
        (Inl _, w1) \<Rightarrow> (Inl ErrInvalidCredentials, w1)
      | (Inr user, w1) \<Rightarrow>
        if \<not> CheckPassword uc (User.Password user) (LoginRequest.Password req)
          then (Inl ErrInvalidCredentials, w1)
        else if \<not> User.IsVerified user then (Inl ErrUserNotVerified, w1)
        else if \<not> User.IsActive user then (Inl ErrUserInactive, w1)
        else
          case GenerateAccessToken (jwtUtil uc) (User.ID user) (User.Email user) (User.Role user)
                 (now w1) of
            Inl err \<Rightarrow> (Inl err, w1)
          | Inr accessToken \<Rightarrow>
          case GenerateRefreshToken (jwtUtil uc) (User.ID user) (now w1) of
            Inl err \<Rightarrow> (Inl err, w1)
          | Inr refreshToken \<Rightarrow>
          let refreshTokenEntity =
                \<lparr> RefreshToken.ID = 0,
                  RefreshToken.UserID = User.ID user,
                  Token = refreshToken,
                  RefreshToken.ExpiresAt = now w1 + GetRefreshTokenExpiration (jwtUtil uc),
                  RefreshToken.CreatedAt = 0,
                  IsRevoked = False \<rparr>
          in
          case RefreshTokenRepositoryImpl_Create refreshTokenEntity w1 of
            (Inl err, w2) \<Rightarrow> (Inl err, w2)
          | (Inr _, w2) \<Rightarrow>
          case UserRepositoryImpl_UpdateLastLogin (User.ID user) w2 of
            (_, w3) \<Rightarrow>
              (Inr \<lparr> AccessToken = accessToken,
                     AuthResponse.RefreshToken = refreshToken,
                     User = ToUserInfo user \<rparr>, w3))"

definition VerifyOTP :: "AuthUseCaseImpl \<Rightarrow> VerifyOTPRequest \<Rightarrow> world \<Rightarrow> error option \<times> world" where
  "VerifyOTP uc req w =
     (case OTPRepositoryImpl_Get (VerifyOTPRequest.Email req) w of
        (Inl _, w1) \<Rightarrow> (Some ErrOTPNotFound, w1)
      | (Inr storedOTP, w1) \<Rightarrow>
        if storedOTP \<noteq> Code req then (Some ErrInvalidOTP, w1)
        else
          case UserRepositoryImpl_UpdateVerificationStatus (VerifyOTPRequest.Email req) True w1 of
            (Some err, w2) \<Rightarrow> (Some err, w2)
          | (None, w2) \<Rightarrow>
          case OTPRepositoryImpl_Delete (VerifyOTPRequest.Email req) w2 of
            (_, w3) \<Rightarrow> (None, w3))"

definition RefreshToken ::
  "AuthUseCaseImpl \<Rightarrow> RefreshTokenRequest \<Rightarrow> world \<Rightarrow> (error + AuthResponse) \<times> world" where
  "RefreshToken uc req w =
     (case ValidateToken (jwtUtil uc) (RefreshTokenRequest.RefreshToken req) (now w) of
        Inl _ \<Rightarrow> (Inl ErrInvalidToken, w)
      | Inr claims \<Rightarrow>
        case RefreshTokenRepositoryImpl_FindByToken (RefreshTokenRequest.RefreshToken req) w of
          (Inl _, w1) \<Rightarrow> (Inl ErrInvalidToken, w1)
        | (Inr refreshToken, w1) \<Rightarrow>
        if IsRevoked refreshToken then (Inl ErrRevokedToken, w1)
        else if now w1 > RefreshToken.ExpiresAt refreshToken then (Inl ErrExpiredToken, w1)
        else
          case ObjectIDFromHex (JWTClaims.UserID claims) of
            Inl _ \<Rightarrow> (Inl ErrInvalidToken, w1)
          | Inr userID \<Rightarrow>
          case UserRepositoryImpl_FindByID userID w1 of
            (Inl _, w2) \<Rightarrow> (Inl ErrUserNotFound, w2)
          | (Inr user, w2) \<Rightarrow>
          case GenerateAccessToken (jwtUtil uc) (User.ID user) (User.Email user) (User.Role user)
                 (now w2) of
            Inl err \<Rightarrow> (Inl err, w2)
          | Inr accessToken \<Rightarrow>
          case GenerateRefreshToken (jwtUtil uc) (User.ID user) (now w2) of
            Inl err \<Rightarrow> (Inl err, w2)
          | Inr newRefreshToken \<Rightarrow>
          case RefreshTokenRepositoryImpl_Revoke (RefreshTokenRequest.RefreshToken req) w2 of
            (Some err, w3) \<Rightarrow> (Inl err, w3)
          | (None, w3) \<Rightarrow>
          let newRefreshTokenEntity =
                \<lparr> RefreshToken.ID = 0,
                  RefreshToken.UserID = User.ID user,
                  Token = newRefreshToken,
                  RefreshToken.ExpiresAt = now w3 + GetRefreshTokenExpiration (jwtUtil uc),
                  RefreshToken.CreatedAt = 0,
                  IsRevoked = False \<rparr>
          in
          case RefreshTokenRepositoryImpl_Create newRefreshTokenEntity w3 of
            (Inl err, w4) \<Rightarrow> (Inl err, w4)
          | (Inr _, w4) \<Rightarrow>
              (Inr \<lparr> AccessToken = accessToken,
                     AuthResponse.RefreshToken = newRefreshToken,
                     User = ToUserInfo user \<rparr>, w4))"

definition ResendOTP :: "AuthUseCaseImpl \<Rightarrow> string \<Rightarrow> world \<Rightarrow> error option \<times> world" where
  "ResendOTP uc email w =
     (case UserRepositoryImpl_FindByEmail email w of
        (Inl _, w1) \<Rightarrow> (Some ErrUserNotFound, w1)
      | (Inr user, w1) \<Rightarrow>
        if User.IsVerified user then (Some ErrBadRequest, w1)
        else
          case OTPRepositoryImpl_Exists email w1 of
            (Inl err, w2) \<Rightarrow> (Some err, w2)
          | (Inr exists, w2) \<Rightarrow>
          if exists then (Some ErrOTPAlreadySent, w2)
          else
            case GenerateOTP (otpLength uc) w2 of
              (Inl err, w3) \<Rightarrow> (Some err, w3)
            | (Inr otp, w3) \<Rightarrow>
            case OTPRepositoryImpl_Store email otp (otpExpireMinutes uc) w3 of
              (Some err, w4) \<Rightarrow> (Some err, w4)
            | (None, w4) \<Rightarrow> SendOTP email otp w4)"

definition GetUserByID :: "AuthUseCaseImpl \<Rightarrow> string \<Rightarrow> world \<Rightarrow> (error + User) \<times> world" where
  "GetUserByID uc userID w =
     (case ObjectIDFromHex userID of
        Inl _ \<Rightarrow> (Inl ErrUserNotFound, w)
      | Inr oid \<Rightarrow> UserRepositoryImpl_FindByID oid w)"

section \<open>Runs of the service\<close>

text \<open>
  What happens to the state over time: requests served one after the other through the
  use case and the rate limiter, the clock moving forward, and the environment deciding
  which of the coming calls to the stores fail and what the random source delivers.
\<close>

datatype event =
    DoRegister RegisterRequest
  | DoLogin LoginRequest
  | DoVerifyOTP VerifyOTPRequest
  | DoRefreshToken RefreshTokenRequest
  | DoResendOTP string
  | DoGetUserByID string
  | DoCheckRateLimit string int int
  | DoIncrementCounter string int
  | Elapse nat
  | SetFaults "bool list"
  | SetEntropy "nat list"

fun occur :: "AuthUseCaseImpl \<Rightarrow> event \<Rightarrow> world \<Rightarrow> world" where
  "occur uc (DoRegister req) w = snd (Register uc req w)"
| "occur uc (DoLogin req) w = snd (Login uc req w)"
| "occur uc (DoVerifyOTP req) w = snd (VerifyOTP uc req w)"
| "occur uc (DoRefreshToken req) w = snd (RefreshToken uc req w)"
| "occur uc (DoResendOTP email) w = snd (ResendOTP uc email w)"
| "occur uc (DoGetUserByID userID) w = snd (GetUserByID uc userID w)"
| "occur uc (DoCheckRateLimit key limit windowSeconds) w = snd (CheckRateLimit key limit windowSeconds w)"
| "occur uc (DoIncrementCounter key windowSeconds) w = snd (IncrementCounter key windowSeconds w)"
| "occur uc (Elapse d) w = w\<lparr>now := now w + int d\<rparr>"
| "occur uc (SetFaults fs) w = w\<lparr>faults := fs\<rparr>"
| "occur uc (SetEntropy xs) w = w\<lparr>entropy := xs\<rparr>"

fun run :: "AuthUseCaseImpl \<Rightarrow> event list \<Rightarrow> world \<Rightarrow> world" where
  "run uc [] w = w"
| "run uc (e # es) w = run uc es (occur uc e w)"

section \<open>Observations on the state\<close>

text \<open>The code the OTP store holds for an email now, if any.\<close>

definition otp_stored :: "world \<Rightarrow> string \<Rightarrow> string option" where
  "otp_stored w email =
     (case redis_lookup w (otp_key email) of None \<Rightarrow> None | Some (v, _) \<Rightarrow> Some (redis_string v))"

text \<open>The count a rate-limit key holds now: 0 when the key is absent.\<close>

definition stored_count :: "world \<Rightarrow> string \<Rightarrow> int" where
  "stored_count w key =
     (case redis_lookup w (rate_limit_key key) of
        None \<Rightarrow> 0
      | Some (v, _) \<Rightarrow> (case redis_int v of Inl _ \<Rightarrow> 0 | Inr n \<Rightarrow> n))"

text \<open>
  A rate-limit key is readable when it is absent or holds an integer, as every key
  written by \<open>IncrementCounter\<close> does.
\<close>

definition count_readable :: "world \<Rightarrow> string \<Rightarrow> bool" where
  "count_readable w key =
     (case redis_lookup w (rate_limit_key key) of
        None \<Rightarrow> True
      | Some (v, _) \<Rightarrow> (case redis_int v of Inl _ \<Rightarrow> False | Inr _ \<Rightarrow> True))"

text \<open>
  A burst of hits on one rate-limit key: each hit is an \<open>IncrementCounter\<close> call, made
  after the given time has passed since the event before it.
\<close>

definition hits :: "string \<Rightarrow> int \<Rightarrow> nat list \<Rightarrow> event list" where
  "hits key windowSeconds ds =
     concat (map (\<lambda>d. [Elapse d, DoIncrementCounter key windowSeconds]) ds)"

text \<open>The refresh-token row a lookup by token string finds.\<close>

definition token_row :: "world \<Rightarrow> token \<Rightarrow> RefreshToken option" where
  "token_row w t = find (\<lambda>r. Token r = t) (refresh_tokens w)"

section \<open>An example configuration and state\<close>

text \<open>
  The configuration of the unit tests (secret \<open>test-secret\<close>, access tokens of 15
  minutes, refresh tokens of 168 hours, OTPs of 6 digits living 5 minutes), a stand-in
  for the password functions, and a state with the three users of the login tests.
\<close>

definition example_uc :: AuthUseCaseImpl where
  "example_uc =
     \<lparr> jwtUtil = NewJWTUtil ''test-secret'' (15 * Minute) (168 * Hour),
       otpLength = 6,
       otpExpireMinutes = 5,
       HashPassword = (\<lambda>p. Inr (''hashed:'' @ p)),
       CheckPassword = (\<lambda>h p. h = ''hashed:'' @ p) \<rparr>"

definition example_user :: "ObjectID \<Rightarrow> string \<Rightarrow> string \<Rightarrow> bool \<Rightarrow> bool \<Rightarrow> User" where
  "example_user oid email phone verified active =
     \<lparr> User.ID = oid,
       User.Email = email,
       User.Phone = phone,
       User.Password = ''hashed:password123'',
       User.FirstName = ''Test'',
       User.LastName = ''User'',
       User.Role = RoleCustomer,
       User.IsVerified = verified,
       User.IsActive = active,
       User.CreatedAt = 0,
       User.UpdatedAt = 0,
       User.LastLoginAt = None \<rparr>"

definition example_world :: world where
  "example_world =
     \<lparr> now = 1700000000 * Second,
       users = [example_user 1 ''test@example.com'' ''+923001234567'' True True,
                example_user 2 ''unverified@example.com'' ''+923001234568'' False True,
                example_user 3 ''inactive@example.com'' ''+923001234569'' True False],
       refresh_tokens = [],
       redis = [otp_key ''unverified@example.com'' \<mapsto>
                  (RString ''123456'', Some (1700000000 * Second + 5 * Minute)),
                otp_key ''ghost@example.com'' \<mapsto>
                  (RString ''654321'', Some (1700000000 * Second + 5 * Minute))],
       next_oid = 4,
       entropy = [3, 1, 4, 1, 5, 9, 2, 6],
       outbox = [],
       faults = [] \<rparr>"

text \<open>
  The verified user of the example logs in; \<open>example_refresh_token\<close> is the refresh
  token that login issues. In \<open>example_world_stale\<close> the refresh-token lifetime and one
  more second have passed since. In \<open>example_world_short_row\<close> the same token has a row
  whose stored expiry is an hour in the past.
\<close>

definition example_login :: LoginRequest where
  "example_login = \<lparr>LoginRequest.Email = ''test@example.com'', Password = ''password123''\<rparr>"

definition example_refresh_claims :: JWTClaims where
  "example_refresh_claims =
     \<lparr> JWTClaims.UserID = Hex 1,
       JWTClaims.Email = [],
       JWTClaims.Role = [],
       JWTClaims.ExpiresAt = Some (1700000000 * Second + 168 * Hour),
       JWTClaims.IssuedAt = Some (1700000000 * Second),
       JWTClaims.NotBefore = Some (1700000000 * Second) \<rparr>"

definition example_refresh_token :: token where
  "example_refresh_token =
     JWT HS256 example_refresh_claims (HMAC HS256 ''test-secret'' example_refresh_claims)"

definition example_world_stale :: world where
  "example_world_stale =
     run example_uc [DoLogin example_login, Elapse (nat (168 * Hour + Second))] example_world"

definition example_world_short_row :: world where
  "example_world_short_row =
     example_world
       \<lparr> refresh_tokens := [\<lparr> RefreshToken.ID = 4,
                               RefreshToken.UserID = 1,
                               Token = example_refresh_token,
                               RefreshToken.ExpiresAt = 1700000000 * Second - Hour,
                               RefreshToken.CreatedAt = 1700000000 * Second - 2 * Hour,
                               IsRevoked = False \<rparr>],
         next_oid := 5 \<rparr>"

text \<open>What a lookup by email returns is a user who is not verified and is active.\<close>

definition unverified_active :: "world \<Rightarrow> string \<Rightarrow> bool" where
  "unverified_active w email =
     (case find (\<lambda>u. User.Email u = email) (users w) of
        None \<Rightarrow> False
      | Some u \<Rightarrow> \<not> User.IsVerified u \<and> User.IsActive u)"

text \<open>The code \<open>GenerateOTP\<close> makes from the next values of the random source.\<close>

definition next_otp :: "AuthUseCaseImpl \<Rightarrow> world \<Rightarrow> string" where
  "next_otp uc w =
     map (\<lambda>x. digits ! (x mod length digits)) (take (nat (otpLength uc)) (entropy w))"

text \<open>
  A registration of a new user, in a state where the first four calls to the stores go
  through and the fifth, the dispatch of the OTP, fails.
\<close>

definition example_register :: RegisterRequest where
  "example_register =
     \<lparr> RegisterRequest.Email = ''new@example.com'',
       RegisterRequest.Phone = ''03001234560'',
       RegisterRequest.Password = ''Password123'',
       RegisterRequest.FirstName = ''New'',
       RegisterRequest.LastName = ''User'',
       RegisterRequest.Role = RoleCustomer \<rparr>"

definition example_world_smtp_down :: world where
  "example_world_smtp_down = example_world\<lparr>faults := [False, False, False, False, True]\<rparr>"

text \<open>The same state with the OTP store down at the fourth call.\<close>

definition example_world_redis_down :: world where
  "example_world_redis_down = example_world\<lparr>faults := [False, False, False, True]\<rparr>"

text \<open>The row a lookup by token string finds is marked revoked.\<close>

definition revoked_row :: "world \<Rightarrow> token \<Rightarrow> bool" where
  "revoked_row w t = (case token_row w t of None \<Rightarrow> False | Some r \<Rightarrow> IsRevoked r)"

text \<open>The state an hour after the login of the example user.\<close>

definition example_world_session :: world where
  "example_world_session =
     run example_uc [DoLogin example_login, Elapse 3600000000000] example_world"

section \<open>Properties\<close>

subsection \<open>Phone numbers\<close>


text \<open>
  C7. Phone normalization maps \<open>03001234567\<close> and \<open>+923001234567\<close> to the same canonical
  value, which passes validation, while \<open>+92301234567\<close> (one digit short) fails
  validation after normalization.
\<close>

theorem C7_phone_normalization:
  "NormalizePakistaniPhone ''03001234567'' = NormalizePakistaniPhone ''+923001234567''
   \<and> NormalizePakistaniPhone ''03001234567'' = ''+923001234567''
   \<and> ValidatePakistaniPhone (NormalizePakistaniPhone ''03001234567'')
   \<and> ValidatePakistaniPhone (NormalizePakistaniPhone ''+923001234567'')
   \<and> \<not> ValidatePakistaniPhone (NormalizePakistaniPhone ''+92301234567'')"
  by (simp add: NormalizePakistaniPhone_def ValidatePakistaniPhone_def ReplaceAll_empty_def
      HasPrefix_def phone_regex_match_def is_digit_def)

subsection \<open>Auxiliary facts\<close>

lemmas example_defs = example_world_def example_user_def example_uc_def NewJWTUtil_def

lemma io_call_no_faults: "faults w = [] \<Longrightarrow> io_call w = (False, w)"
  by (simp add: io_call_def)

lemma FindByEmail_cases:
  "UserRepositoryImpl_FindByEmail email w = (r, w1) \<Longrightarrow>
     users w1 = users w \<and>
     (r = Inl mongo_error \<or>
      (case find (\<lambda>u. User.Email u = email) (users w) of
         None \<Rightarrow> r = Inl ErrUserNotFound | Some u \<Rightarrow> r = Inr u))"
  by (auto simp: UserRepositoryImpl_FindByEmail_def users_FindOne_def io_call_def Decode_user_def
      split: list.splits bool.splits option.splits if_splits)

lemma wrap_int64_id:
  assumes "- (2 ^ 63) \<le> x" and "x < 2 ^ 63"
  shows "wrap_int64 x = x"
proof -
  have "0 \<le> x + 2 ^ 63" and "x + 2 ^ 63 < 2 ^ 64"
    using assms by simp_all
  then have "(x + 2 ^ 63) mod 2 ^ 64 = x + 2 ^ 63"
    by (rule mod_pos_pos_trivial)
  then show ?thesis
    by (simp add: wrap_int64_def)
qed

lemma trunc_bounds:
  fixes x s :: int
  assumes "0 < s"
  shows "x - s < (x div s) * s" and "(x div s) * s \<le> x"
proof -
  have e: "x = (x div s) * s + x mod s" by simp
  have "0 \<le> x mod s" "x mod s < s" using assms by simp_all
  with e show "x - s < (x div s) * s" and "(x div s) * s \<le> x" by linarith+
qed

subsection \<open>Login\<close>

text \<open>
  C3. For every Login request, if no user exists with the given email, or a user exists
  but the password does not verify against the stored hash, Login returns the identical
  InvalidCredentials error value in both cases. (A lookup that fails in transport ends
  in the same error, so nothing is assumed about pending faults.)
\<close>

theorem C3_login_same_error:
  assumes "find (\<lambda>u. User.Email u = LoginRequest.Email req) (users w) = None
           \<or> (\<exists>u. find (\<lambda>u. User.Email u = LoginRequest.Email req) (users w) = Some u
                  \<and> \<not> CheckPassword uc (User.Password u) (LoginRequest.Password req))"
  shows "fst (Login uc req w) = Inl ErrInvalidCredentials"
proof -
  obtain r w1 where f: "UserRepositoryImpl_FindByEmail (LoginRequest.Email req) w = (r, w1)"
    by (cases "UserRepositoryImpl_FindByEmail (LoginRequest.Email req) w")
  from FindByEmail_cases [OF f] assms
  have "(\<exists>e. r = Inl e)
        \<or> (\<exists>u. r = Inr u \<and> \<not> CheckPassword uc (User.Password u) (LoginRequest.Password req))"
    by (auto split: option.splits)
  then show ?thesis
    by (auto simp: Login_def f)
qed

theorem C3_login_same_error_witness:
  "find (\<lambda>u. User.Email u = ''nobody@example.com'') (users example_world) = None
   \<and> find (\<lambda>u. User.Email u = ''test@example.com'') (users example_world)
       = Some (example_user 1 ''test@example.com'' ''+923001234567'' True True)
   \<and> \<not> CheckPassword example_uc
         (User.Password (example_user 1 ''test@example.com'' ''+923001234567'' True True))
         ''wrongpassword''
   \<and> fst (Login example_uc
            \<lparr>LoginRequest.Email = ''nobody@example.com'', Password = ''anything''\<rparr>
            example_world) = Inl ErrInvalidCredentials
   \<and> fst (Login example_uc
            \<lparr>LoginRequest.Email = ''test@example.com'', Password = ''wrongpassword''\<rparr>
            example_world) = Inl ErrInvalidCredentials"
  using C3_login_same_error [of "\<lparr>LoginRequest.Email = ''nobody@example.com'', Password = ''anything''\<rparr>"
                               example_world example_uc]
        C3_login_same_error [of "\<lparr>LoginRequest.Email = ''test@example.com'', Password = ''wrongpassword''\<rparr>"
                               example_world example_uc]
  by (simp add: example_defs)

text \<open>
  C4. For every Login request whose password verifies against the stored hash (the
  lookup having gone through): an unverified user gets UserNotVerified whatever
  \<open>is_active\<close> is, and a verified but inactive user gets UserInactive.
\<close>

theorem C4_login_verified_before_active:
  assumes "fst (io_call w) = False"
    and "find (\<lambda>u. User.Email u = LoginRequest.Email req) (users w) = Some u"
    and "CheckPassword uc (User.Password u) (LoginRequest.Password req)"
  shows "(\<not> User.IsVerified u \<longrightarrow> fst (Login uc req w) = Inl ErrUserNotVerified)
       \<and> (User.IsVerified u \<and> \<not> User.IsActive u \<longrightarrow> fst (Login uc req w) = Inl ErrUserInactive)"
proof -
  obtain w1 where c: "io_call w = (False, w1)" and u: "users w1 = users w"
    using assms(1) by (cases "io_call w") (auto simp: io_call_def split: list.splits)
  have f: "UserRepositoryImpl_FindByEmail (LoginRequest.Email req) w = (Inr u, w1)"
    using assms(2)
    by (simp add: UserRepositoryImpl_FindByEmail_def users_FindOne_def c u Decode_user_def)
  show ?thesis
    using assms(3) by (simp add: Login_def f)
qed

theorem C4_login_verified_before_active_witness:
  "fst (io_call example_world) = False
   \<and> find (\<lambda>u. User.Email u = ''unverified@example.com'') (users example_world)
       = Some (example_user 2 ''unverified@example.com'' ''+923001234568'' False True)
   \<and> find (\<lambda>u. User.Email u = ''inactive@example.com'') (users example_world)
       = Some (example_user 3 ''inactive@example.com'' ''+923001234569'' True False)
   \<and> CheckPassword example_uc ''hashed:password123'' ''password123''
   \<and> fst (Login example_uc
            \<lparr>LoginRequest.Email = ''unverified@example.com'', Password = ''password123''\<rparr>
            example_world) = Inl ErrUserNotVerified
   \<and> fst (Login example_uc
            \<lparr>LoginRequest.Email = ''inactive@example.com'', Password = ''password123''\<rparr>
            example_world) = Inl ErrUserInactive"
  using C4_login_verified_before_active
          [of example_world
              "\<lparr>LoginRequest.Email = ''unverified@example.com'', Password = ''password123''\<rparr>"
              "example_user 2 ''unverified@example.com'' ''+923001234568'' False True" example_uc]
        C4_login_verified_before_active
          [of example_world
              "\<lparr>LoginRequest.Email = ''inactive@example.com'', Password = ''password123''\<rparr>"
              "example_user 3 ''inactive@example.com'' ''+923001234569'' True False" example_uc]
  by (simp add: example_defs io_call_def)

subsection \<open>Token issuer\<close>



subsection \<open>OTP verification\<close>

lemma OTP_Get_no_faults:
  "faults w = [] \<Longrightarrow>
   OTPRepositoryImpl_Get email w =
     ((case otp_stored w email of None \<Rightarrow> Inl RedisNil | Some c \<Rightarrow> Inr c), w)"
  by (simp add: OTPRepositoryImpl_Get_def Client_Get_def io_call_no_faults otp_stored_def
      split: option.splits prod.splits)

lemma OTP_Get_absent:
  "otp_stored w email = None \<Longrightarrow> \<exists>e w1. OTPRepositoryImpl_Get email w = (Inl e, w1)"
  by (auto simp: OTPRepositoryImpl_Get_def Client_Get_def io_call_def otp_stored_def
      redis_lookup_def split: option.splits prod.splits list.splits bool.splits if_splits)

lemma update_first_none: "\<forall>x \<in> set xs. \<not> P x \<Longrightarrow> update_first P f xs = xs"
  by (induction xs) auto

lemma UpdateVerificationStatus_no_faults:
  "faults w = [] \<Longrightarrow>
   UserRepositoryImpl_UpdateVerificationStatus email b w =
     (None, w\<lparr>users := update_first (\<lambda>u. User.Email u = email)
                 (\<lambda>u. u\<lparr>User.IsVerified := b, User.UpdatedAt := bson_time (now w)\<rparr>) (users w)\<rparr>)"
  by (simp add: UserRepositoryImpl_UpdateVerificationStatus_def users_UpdateOne_def
      io_call_no_faults)

lemma OTP_Delete_no_faults:
  "faults w = [] \<Longrightarrow>
   OTPRepositoryImpl_Delete email w = (None, w\<lparr>redis := (redis w)(otp_key email := None)\<rparr>)"
  by (simp add: OTPRepositoryImpl_Delete_def Client_Delete_def io_call_no_faults)

lemma VerifyOTP_match_no_faults:
  assumes "faults w = []" and "otp_stored w email = Some code"
  shows "VerifyOTP uc \<lparr>VerifyOTPRequest.Email = email, Code = code\<rparr> w =
           (None, w\<lparr>users := update_first (\<lambda>u. User.Email u = email)
                       (\<lambda>u. u\<lparr>User.IsVerified := True, User.UpdatedAt := bson_time (now w)\<rparr>)
                       (users w),
                    redis := (redis w)(otp_key email := None)\<rparr>)"
  using assms
  by (simp add: VerifyOTP_def OTP_Get_no_faults UpdateVerificationStatus_no_faults
      OTP_Delete_no_faults)

text \<open>
  C5. When a code is stored for the email and the presented code differs, VerifyOTP
  returns InvalidOTP and leaves the state, the stored OTP included, as it was, so that a
  later call with the stored code, the key still being alive, succeeds. When no code is
  stored (never set, or expired) the call returns OTPNotFound, which is a different
  error value. No call to a store fails in transport during the two calls.
\<close>

theorem C5_verify_otp_mismatch:
  assumes "faults w = []"
    and "otp_stored w email = Some c"
    and "code \<noteq> c"
    and "otp_stored (occur uc (Elapse d) w) email = Some c"
  shows "VerifyOTP uc \<lparr>VerifyOTPRequest.Email = email, Code = code\<rparr> w = (Some ErrInvalidOTP, w)
       \<and> fst (VerifyOTP uc \<lparr>VerifyOTPRequest.Email = email, Code = c\<rparr>
               (occur uc (Elapse d)
                  (snd (VerifyOTP uc \<lparr>VerifyOTPRequest.Email = email, Code = code\<rparr> w)))) = None
       \<and> (otp_stored w0 email0 = None \<longrightarrow>
            fst (VerifyOTP uc \<lparr>VerifyOTPRequest.Email = email0, Code = code0\<rparr> w0)
              = Some ErrOTPNotFound)
       \<and> ErrOTPNotFound \<noteq> ErrInvalidOTP"
proof -
  have a: "VerifyOTP uc \<lparr>VerifyOTPRequest.Email = email, Code = code\<rparr> w = (Some ErrInvalidOTP, w)"
    using assms(1-3) by (auto simp: VerifyOTP_def OTP_Get_no_faults)
  have f: "faults (occur uc (Elapse d) w) = []"
    using assms(1) by simp
  have b: "fst (VerifyOTP uc \<lparr>VerifyOTPRequest.Email = email, Code = c\<rparr>
               (occur uc (Elapse d) w)) = None"
    using VerifyOTP_match_no_faults [OF f assms(4), of uc] by simp
  have c: "otp_stored w0 email0 = None \<longrightarrow>
            fst (VerifyOTP uc \<lparr>VerifyOTPRequest.Email = email0, Code = code0\<rparr> w0)
              = Some ErrOTPNotFound"
  proof
    assume "otp_stored w0 email0 = None"
    from OTP_Get_absent [OF this] obtain e w1
      where "OTPRepositoryImpl_Get email0 w0 = (Inl e, w1)" by blast
    then show "fst (VerifyOTP uc \<lparr>VerifyOTPRequest.Email = email0, Code = code0\<rparr> w0)
              = Some ErrOTPNotFound"
      by (simp add: VerifyOTP_def)
  qed
  show ?thesis using a b c by simp
qed

text \<open>
  C10. VerifyOTP does not check that the user exists: for an email with a matching stored
  OTP and no user record, it returns success (the update matches no document, which is
  no error), the users are as before, and the OTP is deleted. No call to a store fails
  in transport.
\<close>

theorem C10_verify_otp_without_user:
  assumes "faults w = []"
    and "otp_stored w email = Some code"
    and "\<forall>u \<in> set (users w). User.Email u \<noteq> email"
  shows "fst (VerifyOTP uc \<lparr>VerifyOTPRequest.Email = email, Code = code\<rparr> w) = None
       \<and> users (snd (VerifyOTP uc \<lparr>VerifyOTPRequest.Email = email, Code = code\<rparr> w)) = users w
       \<and> redis (snd (VerifyOTP uc \<lparr>VerifyOTPRequest.Email = email, Code = code\<rparr> w))
           (otp_key email) = None
       \<and> otp_stored (snd (VerifyOTP uc \<lparr>VerifyOTPRequest.Email = email, Code = code\<rparr> w)) email
           = None"
  using assms(3)
  by (simp add: VerifyOTP_match_no_faults [OF assms(1,2)] update_first_none otp_stored_def
      redis_lookup_def)

lemmas otp_eval = otp_stored_def redis_lookup_def otp_key_def redis_string_def
  Minute_def Second_def

theorem C5_verify_otp_mismatch_witness:
  "faults example_world = []
   \<and> otp_stored example_world ''unverified@example.com'' = Some ''123456''
   \<and> ''000000'' \<noteq> ''123456''
   \<and> otp_stored (occur example_uc (Elapse 60000000000) example_world) ''unverified@example.com''
       = Some ''123456''
   \<and> otp_stored example_world ''test@example.com'' = None
   \<and> VerifyOTP example_uc
        \<lparr>VerifyOTPRequest.Email = ''unverified@example.com'', Code = ''000000''\<rparr> example_world
       = (Some ErrInvalidOTP, example_world)
   \<and> fst (VerifyOTP example_uc
            \<lparr>VerifyOTPRequest.Email = ''unverified@example.com'', Code = ''123456''\<rparr>
            (occur example_uc (Elapse 60000000000)
               (snd (VerifyOTP example_uc
                  \<lparr>VerifyOTPRequest.Email = ''unverified@example.com'', Code = ''000000''\<rparr>
                  example_world)))) = None
   \<and> fst (VerifyOTP example_uc
            \<lparr>VerifyOTPRequest.Email = ''test@example.com'', Code = ''123456''\<rparr> example_world)
       = Some ErrOTPNotFound"
proof -
  have h1: "faults example_world = []"
    by (simp add: example_defs)
  have h2: "otp_stored example_world ''unverified@example.com'' = Some ''123456''"
    by (simp add: example_defs otp_eval)
  have h3: "''000000'' \<noteq> ''123456''"
    by simp
  have h4: "otp_stored (occur example_uc (Elapse 60000000000) example_world)
              ''unverified@example.com'' = Some ''123456''"
    by (simp add: example_defs otp_eval)
  have h5: "otp_stored example_world ''test@example.com'' = None"
    by (simp add: example_defs otp_eval)
  from C5_verify_otp_mismatch [OF h1 h2 h3 h4, of example_world "''test@example.com''" "''123456''"]
  show ?thesis
    using h1 h2 h3 h4 h5 by auto
qed

theorem C10_verify_otp_without_user_witness:
  "faults example_world = []
   \<and> otp_stored example_world ''ghost@example.com'' = Some ''654321''
   \<and> find (\<lambda>u. User.Email u = ''ghost@example.com'') (users example_world) = None
   \<and> fst (VerifyOTP example_uc
            \<lparr>VerifyOTPRequest.Email = ''ghost@example.com'', Code = ''654321''\<rparr> example_world)
       = None
   \<and> otp_stored (snd (VerifyOTP example_uc
            \<lparr>VerifyOTPRequest.Email = ''ghost@example.com'', Code = ''654321''\<rparr> example_world))
        ''ghost@example.com'' = None"
proof -
  have h1: "faults example_world = []"
    by (simp add: example_defs)
  have h2: "otp_stored example_world ''ghost@example.com'' = Some ''654321''"
    by (simp add: example_defs otp_eval)
  have h3: "\<forall>u \<in> set (users example_world). User.Email u \<noteq> ''ghost@example.com''"
    by (simp add: example_defs)
  have h4: "find (\<lambda>u. User.Email u = ''ghost@example.com'') (users example_world) = None"
    by (simp add: example_defs)
  from C10_verify_otp_without_user [OF h1 h2 h3, of example_uc]
  show ?thesis
    using h1 h2 h4 by simp
qed

subsection \<open>Rate limiter\<close>

lemma io_call_snd: "snd (io_call w) = w\<lparr>faults := tl (faults w)\<rparr>"
  by (cases "faults w") (simp_all add: io_call_def)

lemma io_call_fst_snd: "io_call w = (fst (io_call w), w\<lparr>faults := tl (faults w)\<rparr>)"
  by (metis io_call_snd prod.collapse)

lemma redis_lookup_faults [simp]: "redis_lookup (w\<lparr>faults := fs\<rparr>) key = redis_lookup w key"
  by (simp add: redis_lookup_def split: option.splits prod.splits)

lemma CheckRateLimit_frame:
  "snd (CheckRateLimit key limit windowSeconds w) = w\<lparr>faults := tl (faults w)\<rparr>"
  by (subst (1) CheckRateLimit_def, subst (1) Client_Get_Int_def, subst (1) io_call_fst_snd)
     (simp add: Let_def split: option.splits sum.splits prod.splits bool.splits)

lemma CheckRateLimit_verdict:
  "fst (CheckRateLimit key limit windowSeconds w) = Inr allowed \<Longrightarrow>
   allowed = (stored_count w key < limit)"
  by (subst (asm) CheckRateLimit_def, subst (asm) Client_Get_Int_def, subst (asm) io_call_fst_snd)
     (auto simp: Let_def stored_count_def redis_error_def
       split: option.splits sum.splits prod.splits bool.splits if_splits)

lemma CheckRateLimit_no_faults:
  "faults w = [] \<Longrightarrow> count_readable w key \<Longrightarrow>
   CheckRateLimit key limit windowSeconds w = (Inr (stored_count w key < limit), w)"
  by (auto simp: CheckRateLimit_def Client_Get_Int_def io_call_no_faults Let_def
      stored_count_def count_readable_def split: option.splits sum.splits prod.splits)

lemma IncrementCounter_fresh:
  assumes "faults w = []" and "redis_lookup w (rate_limit_key key) = None"
    and "0 < windowSeconds" and "windowSeconds * Second < 2 ^ 63"
  shows "IncrementCounter key windowSeconds w =
           (None, w\<lparr>redis := (redis w)(rate_limit_key key \<mapsto>
                                (RInt 1, Some (now w + windowSeconds * Second)))\<rparr>)"
proof -
  have s: "\<not> windowSeconds * Second < Second" "\<not> windowSeconds * Second \<le> 0"
    using assms(3) by (simp_all add: Second_def)
  have "- (2 ^ 63) \<le> windowSeconds * Second"
    using s(2) by simp
  then have k: "wrap_int64 (windowSeconds * Second) = windowSeconds * Second"
    using assms(4) by (rule wrap_int64_id)
  show ?thesis
    using assms(1,2) s
    by (simp add: IncrementCounter_def Client_Increment_def Client_Expire_def
        io_call_no_faults Let_def redis_lookup_def k)
qed

text \<open>
  Beyond that bound the product wraps: a window of 9223372037 seconds is a negative
  duration, the first hit deletes the counter it has just made, and no window opens.
\<close>

lemma IncrementCounter_window_wraps:
  assumes "faults w = []" and "redis_lookup w (rate_limit_key key) = None"
  shows "IncrementCounter key 9223372037 w = (None, w\<lparr>redis := (redis w)(rate_limit_key key := None)\<rparr>)"
proof -
  have k: "wrap_int64 (9223372037 * Second) = - 9223372036709551616"
    by (simp add: wrap_int64_def Second_def)
  show ?thesis
    using assms
    by (simp add: IncrementCounter_def Client_Increment_def Client_Expire_def
        io_call_no_faults Let_def redis_lookup_def k)
qed

lemma IncrementCounter_live:
  assumes "faults w = []"
    and "redis w (rate_limit_key key) = Some (RInt k, Some T)"
    and "now w < T" and "1 \<le> k" and "k + 1 < 2 ^ 63"
  shows "IncrementCounter key windowSeconds w =
           (None, w\<lparr>redis := (redis w)(rate_limit_key key \<mapsto> (RInt (k + 1), Some T))\<rparr>)"
  using assms
  by (simp add: IncrementCounter_def Client_Increment_def io_call_no_faults Let_def
      redis_lookup_def redis_int_def)

lemma run_append: "run uc (es @ fs) w = run uc fs (run uc es w)"
  by (induction es arbitrary: w) simp_all

lemma run_hits_live:
  assumes "faults w = []"
    and "redis w (rate_limit_key key) = Some (RInt k, Some T)"
    and "1 \<le> k" and "k + int (length ds) < 2 ^ 63"
    and "now w + int (sum_list ds) < T"
  shows "faults (run uc (hits key windowSeconds ds) w) = []
       \<and> redis (run uc (hits key windowSeconds ds) w) (rate_limit_key key)
           = Some (RInt (k + int (length ds)), Some T)
       \<and> now (run uc (hits key windowSeconds ds) w) = now w + int (sum_list ds)"
  using assms
proof (induction ds arbitrary: w k)
  case Nil
  then show ?case by (simp add: hits_def)
next
  case (Cons d ds)
  let ?w1 = "w\<lparr>now := now w + int d\<rparr>"
  let ?w2 = "?w1\<lparr>redis := (redis ?w1)(rate_limit_key key \<mapsto> (RInt (k + 1), Some T))\<rparr>"
  have i: "IncrementCounter key windowSeconds ?w1 = (None, ?w2)"
    using Cons.prems by (intro IncrementCounter_live) simp_all
  have r: "run uc (hits key windowSeconds (d # ds)) w = run uc (hits key windowSeconds ds) ?w2"
    by (simp add: hits_def i)
  have "faults (run uc (hits key windowSeconds ds) ?w2) = []
       \<and> redis (run uc (hits key windowSeconds ds) ?w2) (rate_limit_key key)
           = Some (RInt (k + 1 + int (length ds)), Some T)
       \<and> now (run uc (hits key windowSeconds ds) ?w2) = now ?w2 + int (sum_list ds)"
    using Cons.prems by (intro Cons.IH) simp_all
  then show ?case
    by (simp add: r add.assoc)
qed

lemma burst_then_check:
  assumes "int (length ds) < 2 ^ 63"
    and "faults w = []"
    and "redis_lookup w (rate_limit_key key) = None"
    and "0 < windowSeconds"
    and "int (sum_list (tl ds)) + int d < windowSeconds * Second"
    and "windowSeconds * Second < 2 ^ 63"
  shows "fst (CheckRateLimit key (int (length ds)) windowSeconds
               (run uc (hits key windowSeconds ds @ [Elapse d]) w)) = Inr False"
proof (cases ds)
  case Nil
  have "redis_lookup (w\<lparr>now := now w + int d\<rparr>) (rate_limit_key key) = None"
    using assms(3) by (auto simp: redis_lookup_def split: option.splits if_splits)
  then show ?thesis
    using Nil assms(2)
    by (simp add: hits_def CheckRateLimit_no_faults count_readable_def stored_count_def)
next
  case (Cons d1 ds')
  let ?w1 = "w\<lparr>now := now w + int d1\<rparr>"
  let ?T = "now ?w1 + windowSeconds * Second"
  let ?w2 = "?w1\<lparr>redis := (redis ?w1)(rate_limit_key key \<mapsto> (RInt 1, Some ?T))\<rparr>"
  let ?w3 = "run uc (hits key windowSeconds ds') ?w2"
  let ?w4 = "?w3\<lparr>now := now ?w3 + int d\<rparr>"
  have l: "redis_lookup ?w1 (rate_limit_key key) = None"
    using assms(3) by (auto simp: redis_lookup_def split: option.splits if_splits)
  have i: "IncrementCounter key windowSeconds ?w1 = (None, ?w2)"
    using assms(2,4,6) l by (intro IncrementCounter_fresh) simp_all
  have h: "faults ?w3 = []
       \<and> redis ?w3 (rate_limit_key key) = Some (RInt (1 + int (length ds')), Some ?T)
       \<and> now ?w3 = now ?w2 + int (sum_list ds')"
    using assms(1,2,5) Cons by (intro run_hits_live) simp_all
  have r: "run uc (hits key windowSeconds ds @ [Elapse d]) w = ?w4"
    by (simp add: Cons hits_def i run_append)
  have live: "redis_lookup ?w4 (rate_limit_key key) = Some (RInt (1 + int (length ds')), Some ?T)"
    using h assms(5) Cons by (simp add: redis_lookup_def)
  have c: "CheckRateLimit key (int (length ds)) windowSeconds ?w4
          = (Inr (stored_count ?w4 key < int (length ds)), ?w4)"
    using h live by (intro CheckRateLimit_no_faults) (simp_all add: count_readable_def redis_int_def)
  have sc: "stored_count ?w4 key = int (length ds)"
    unfolding stored_count_def live using Cons by (simp add: redis_int_def)
  show ?thesis
    unfolding r c sc by simp
qed

text \<open>
  C8. CheckRateLimit leaves the counters, and all the rest of the state, as they were
  (it only uses up the pending outcome of its one call to the store); a verdict it
  returns is "allowed" exactly when the count stored for the key is below the limit, and
  it returns one whenever the read succeeds on a readable key. So after N hits on a key
  in one window (none before the first, all the time that passes staying within the
  window it opens) the next check with limit N reports "not allowed". N fits Go's
  integers, the window is positive and, counted in nanoseconds, fits Go's 64-bit
  duration (up to 9223372036 seconds), and no call to the store fails during the burst.
\<close>

theorem C8_check_rate_limit:
  "snd (CheckRateLimit key limit windowSeconds w) = w\<lparr>faults := tl (faults w)\<rparr>
   \<and> redis (snd (CheckRateLimit key limit windowSeconds w)) = redis w
   \<and> (fst (CheckRateLimit key limit windowSeconds w) = Inr allowed \<longrightarrow>
        allowed = (stored_count w key < limit))
   \<and> (faults w = [] \<and> count_readable w key \<longrightarrow>
        CheckRateLimit key limit windowSeconds w = (Inr (stored_count w key < limit), w))
   \<and> (int (length ds) < 2 ^ 63 \<and> faults w = [] \<and> redis_lookup w (rate_limit_key key) = None
        \<and> 0 < windowSeconds \<and> windowSeconds * Second < 2 ^ 63
        \<and> int (sum_list (tl ds)) + int d < windowSeconds * Second \<longrightarrow>
        fst (CheckRateLimit key (int (length ds)) windowSeconds
               (run uc (hits key windowSeconds ds @ [Elapse d]) w)) = Inr False)"
  using CheckRateLimit_frame [of key limit windowSeconds w]
    CheckRateLimit_verdict [of key limit windowSeconds w allowed]
    CheckRateLimit_no_faults [of w key limit windowSeconds]
    burst_then_check [of ds w key windowSeconds d uc]
  by simp

theorem C8_check_rate_limit_witness:
  "faults example_world = []
   \<and> count_readable example_world ''ip:10.0.0.1''
   \<and> stored_count example_world ''ip:10.0.0.1'' = 0
   \<and> fst (CheckRateLimit ''ip:10.0.0.1'' 10 60 example_world) = Inr True
   \<and> CheckRateLimit ''ip:10.0.0.1'' 10 60 example_world = (Inr True, example_world)
   \<and> int (length [0, 1000000000, 1000000000 :: nat]) < 2 ^ 63
   \<and> redis_lookup example_world (rate_limit_key ''ip:10.0.0.1'') = None
   \<and> (0 :: int) < 60
   \<and> 60 * Second < 2 ^ 63
   \<and> int (sum_list (tl [0, 1000000000, 1000000000])) + int 1000000000 < 60 * Second
   \<and> fst (CheckRateLimit ''ip:10.0.0.1'' 3 60
            (run example_uc
               (hits ''ip:10.0.0.1'' 60 [0, 1000000000, 1000000000] @ [Elapse 1000000000])
               example_world)) = Inr False"
proof -
  have h1: "faults example_world = []"
    by (simp add: example_defs)
  have h2: "redis_lookup example_world (rate_limit_key ''ip:10.0.0.1'') = None"
    by (simp add: example_defs redis_lookup_def rate_limit_key_def otp_key_def)
  have h3: "count_readable example_world ''ip:10.0.0.1''"
    by (simp add: count_readable_def h2)
  have h4: "stored_count example_world ''ip:10.0.0.1'' = 0"
    by (simp add: stored_count_def h2)
  have h5: "int (length [0, 1000000000, 1000000000 :: nat]) < 2 ^ 63"
    by simp
  have h6: "int (sum_list (tl [0, 1000000000, 1000000000])) + int 1000000000 < 60 * Second"
    by (simp add: Second_def)
  have h7: "60 * Second < 2 ^ 63"
    by (simp add: Second_def)
  from C8_check_rate_limit [of "''ip:10.0.0.1''" 10 60 example_world True
      "[0, 1000000000, 1000000000]" 1000000000 example_uc]
  have a: "CheckRateLimit ''ip:10.0.0.1'' 10 60 example_world = (Inr True, example_world)"
    using h1 h3 h4 by simp
  from C8_check_rate_limit [of "''ip:10.0.0.1''" 3 60 example_world True
      "[0, 1000000000, 1000000000]" 1000000000 example_uc]
  have b: "fst (CheckRateLimit ''ip:10.0.0.1'' 3 60
            (run example_uc
               (hits ''ip:10.0.0.1'' 60 [0, 1000000000, 1000000000] @ [Elapse 1000000000])
               example_world)) = Inr False"
    using h1 h2 h5 h6 h7 by simp
  show ?thesis
    using h1 h2 h3 h4 h5 h6 h7 a b by simp
qed

lemmas time_defs = Millisecond_def Second_def Minute_def Hour_def

lemma example_login_result:
  "Login example_uc example_login example_world =
     (Inr \<lparr> AccessToken = JWT HS256
                \<lparr> JWTClaims.UserID = Hex 1,
                  JWTClaims.Email = ''test@example.com'',
                  JWTClaims.Role = RoleCustomer,
                  JWTClaims.ExpiresAt = Some (1700000000 * Second + 15 * Minute),
                  JWTClaims.IssuedAt = Some (1700000000 * Second),
                  JWTClaims.NotBefore = Some (1700000000 * Second) \<rparr>
                (HMAC HS256 ''test-secret''
                   \<lparr> JWTClaims.UserID = Hex 1,
                     JWTClaims.Email = ''test@example.com'',
                     JWTClaims.Role = RoleCustomer,
                     JWTClaims.ExpiresAt = Some (1700000000 * Second + 15 * Minute),
                     JWTClaims.IssuedAt = Some (1700000000 * Second),
                     JWTClaims.NotBefore = Some (1700000000 * Second) \<rparr>),
             AuthResponse.RefreshToken = example_refresh_token,
             User = ToUserInfo (example_user 1 ''test@example.com'' ''+923001234567'' True True) \<rparr>,
      example_world
        \<lparr> users := [(example_user 1 ''test@example.com'' ''+923001234567'' True True)
                       \<lparr> User.LastLoginAt := Some (1700000000 * Second),
                         User.UpdatedAt := 1700000000 * Second \<rparr>,
                    example_user 2 ''unverified@example.com'' ''+923001234568'' False True,
                    example_user 3 ''inactive@example.com'' ''+923001234569'' True False],
          refresh_tokens := [\<lparr> RefreshToken.ID = 4,
                                RefreshToken.UserID = 1,
                                Token = example_refresh_token,
                                RefreshToken.ExpiresAt = 1700000000 * Second + 168 * Hour,
                                RefreshToken.CreatedAt = 1700000000 * Second,
                                IsRevoked = False \<rparr>],
          next_oid := 5 \<rparr>)"
  by (simp add: Login_def example_login_def example_defs UserRepositoryImpl_FindByEmail_def
      users_FindOne_def io_call_def Decode_user_def GenerateAccessToken_def
      GenerateRefreshToken_def SignedString_def NewNumericDate_def Let_def
      RefreshTokenRepositoryImpl_Create_def refresh_tokens_InsertOne_def
      UserRepositoryImpl_UpdateLastLogin_def users_UpdateOne_def bson_time_def
      GetRefreshTokenExpiration_def example_refresh_token_def example_refresh_claims_def
      time_defs)

subsection \<open>Refresh\<close>

lemma example_world_stale_fields:
  "now example_world_stale = 1700000000 * Second + 168 * Hour + Second"
  "refresh_tokens example_world_stale =
     [\<lparr> RefreshToken.ID = 4,
        RefreshToken.UserID = 1,
        Token = example_refresh_token,
        RefreshToken.ExpiresAt = 1700000000 * Second + 168 * Hour,
        RefreshToken.CreatedAt = 1700000000 * Second,
        IsRevoked = False \<rparr>]"
  unfolding example_world_stale_def run.simps occur.simps example_login_result
  by (simp_all add: example_defs time_defs)

lemma FindByToken_ok:
  assumes "fst (io_call w) = False" and "token_row w t = Some r"
  shows "\<exists>w1. RefreshTokenRepositoryImpl_FindByToken t w = (Inr r, w1) \<and> now w1 = now w"
  using assms
  by (cases "faults w")
     (simp_all add: RefreshTokenRepositoryImpl_FindByToken_def refresh_tokens_FindOne_def
       io_call_def token_row_def)

text \<open>
  C2 as stated fails: the example user logs in, and one second after the stored expiry
  of the refresh-token row (which is not revoked) that token is refused as InvalidToken,
  not ExpiredToken, because the token's own expiry claim is checked first.
\<close>

theorem C2_counterexample:
  "token_row example_world_stale example_refresh_token =
     Some \<lparr> RefreshToken.ID = 4,
            RefreshToken.UserID = 1,
            Token = example_refresh_token,
            RefreshToken.ExpiresAt = 1700000000 * Second + 168 * Hour,
            RefreshToken.CreatedAt = 1700000000 * Second,
            IsRevoked = False \<rparr>
   \<and> 1700000000 * Second + 168 * Hour < now example_world_stale
   \<and> fst (RefreshToken example_uc
            \<lparr>RefreshTokenRequest.RefreshToken = example_refresh_token\<rparr> example_world_stale)
       = Inl ErrInvalidToken
   \<and> Inl ErrInvalidToken \<noteq> (Inl ErrExpiredToken :: error + AuthResponse)"
  by (simp add: example_world_stale_fields token_row_def example_defs
      RefreshToken_def ValidateToken_def is_SigningMethodHMAC_def example_refresh_token_def
      example_refresh_claims_def time_defs)

text \<open>
  C2, amended. For every RefreshToken call whose presented token passes ValidateToken
  (signature, and the token's own expiry and not-before claims) and has a stored row
  that is found, is not revoked, and whose stored expiry has passed, the call returns
  ExpiredToken: among tokens that validate, the stored expiry decides. A token that does
  not pass ValidateToken is refused as InvalidToken whatever its row says.
\<close>

theorem C2_refresh_expired_row:
  "(ValidateToken (jwtUtil uc) t (now w) = Inr claims \<and> fst (io_call w) = False
      \<and> token_row w t = Some r \<and> \<not> IsRevoked r \<and> RefreshToken.ExpiresAt r < now w
    \<longrightarrow> fst (RefreshToken uc \<lparr>RefreshTokenRequest.RefreshToken = t\<rparr> w) = Inl ErrExpiredToken)
   \<and> (ValidateToken (jwtUtil uc) t (now w) = Inl e
    \<longrightarrow> fst (RefreshToken uc \<lparr>RefreshTokenRequest.RefreshToken = t\<rparr> w) = Inl ErrInvalidToken)"
proof (intro conjI impI)
  assume a: "ValidateToken (jwtUtil uc) t (now w) = Inr claims \<and> fst (io_call w) = False
      \<and> token_row w t = Some r \<and> \<not> IsRevoked r \<and> RefreshToken.ExpiresAt r < now w"
  then obtain w1 where f: "RefreshTokenRepositoryImpl_FindByToken t w = (Inr r, w1)"
    and n: "now w1 = now w"
    using FindByToken_ok [of w t r] by blast
  show "fst (RefreshToken uc \<lparr>RefreshTokenRequest.RefreshToken = t\<rparr> w) = Inl ErrExpiredToken"
    using a by (simp add: RefreshToken_def f n)
next
  assume "ValidateToken (jwtUtil uc) t (now w) = Inl e"
  then show "fst (RefreshToken uc \<lparr>RefreshTokenRequest.RefreshToken = t\<rparr> w) = Inl ErrInvalidToken"
    by (simp add: RefreshToken_def)
qed

theorem C2_refresh_expired_row_witness:
  "ValidateToken (jwtUtil example_uc) example_refresh_token (now example_world_short_row)
     = Inr example_refresh_claims
   \<and> fst (io_call example_world_short_row) = False
   \<and> token_row example_world_short_row example_refresh_token =
       Some \<lparr> RefreshToken.ID = 4,
              RefreshToken.UserID = 1,
              Token = example_refresh_token,
              RefreshToken.ExpiresAt = 1700000000 * Second - Hour,
              RefreshToken.CreatedAt = 1700000000 * Second - 2 * Hour,
              IsRevoked = False \<rparr>
   \<and> 1700000000 * Second - Hour < now example_world_short_row
   \<and> fst (RefreshToken example_uc
            \<lparr>RefreshTokenRequest.RefreshToken = example_refresh_token\<rparr>
            example_world_short_row) = Inl ErrExpiredToken
   \<and> ValidateToken (jwtUtil example_uc) example_refresh_token (now example_world_stale)
       = Inl (ErrExternal ''token is expired'')
   \<and> fst (RefreshToken example_uc
            \<lparr>RefreshTokenRequest.RefreshToken = example_refresh_token\<rparr>
            example_world_stale) = Inl ErrInvalidToken"
proof -
  let ?r = "\<lparr> RefreshToken.ID = 4,
              RefreshToken.UserID = 1,
              Token = example_refresh_token,
              RefreshToken.ExpiresAt = 1700000000 * Second - Hour,
              RefreshToken.CreatedAt = 1700000000 * Second - 2 * Hour,
              IsRevoked = False \<rparr>"
  have h1: "ValidateToken (jwtUtil example_uc) example_refresh_token (now example_world_short_row)
     = Inr example_refresh_claims"
    by (simp add: example_world_short_row_def example_defs ValidateToken_def
        is_SigningMethodHMAC_def example_refresh_token_def example_refresh_claims_def time_defs)
  have h2: "fst (io_call example_world_short_row) = False"
    by (simp add: example_world_short_row_def example_defs io_call_def)
  have h3: "token_row example_world_short_row example_refresh_token = Some ?r"
    by (simp add: example_world_short_row_def example_defs token_row_def)
  have h4: "\<not> IsRevoked ?r"
    by simp
  have h5: "RefreshToken.ExpiresAt ?r < now example_world_short_row"
    by (simp add: example_world_short_row_def example_defs time_defs)
  have h6: "ValidateToken (jwtUtil example_uc) example_refresh_token (now example_world_stale)
       = Inl (ErrExternal ''token is expired'')"
    by (simp add: example_world_stale_fields example_defs ValidateToken_def
        is_SigningMethodHMAC_def example_refresh_token_def example_refresh_claims_def time_defs)
  from C2_refresh_expired_row [of example_uc example_refresh_token example_world_short_row
      example_refresh_claims ?r]
  have a: "fst (RefreshToken example_uc
            \<lparr>RefreshTokenRequest.RefreshToken = example_refresh_token\<rparr>
            example_world_short_row) = Inl ErrExpiredToken"
    using h1 h2 h3 h4 h5 by blast
  from C2_refresh_expired_row [of example_uc example_refresh_token example_world_stale
      _ _ "ErrExternal ''token is expired''"]
  have b: "fst (RefreshToken example_uc
            \<lparr>RefreshTokenRequest.RefreshToken = example_refresh_token\<rparr>
            example_world_stale) = Inl ErrInvalidToken"
    using h6 by blast
  show ?thesis
    using h1 h2 h3 h5 h6 a b by simp
qed

subsection \<open>Registration\<close>

lemma find_None_iff_ball: "(find P xs = None) = (\<forall>x \<in> set xs. \<not> P x)"
  by (induction xs) auto

lemma users_FindOne_absent:
  assumes "\<forall>u \<in> set (users w). \<not> P u"
  shows "\<exists>err. Decode_user (fst (users_FindOne P w)) = Inl err"
    and "snd (users_FindOne P w) = w\<lparr>faults := tl (faults w)\<rparr>"
proof -
  have n: "find P (users w) = None"
    using assms by (simp add: find_None_iff_ball)
  show "\<exists>err. Decode_user (fst (users_FindOne P w)) = Inl err"
    by (cases "faults w"; cases "hd (faults w)")
       (simp_all add: users_FindOne_def io_call_def Decode_user_def n)
  show "snd (users_FindOne P w) = w\<lparr>faults := tl (faults w)\<rparr>"
    by (cases "faults w"; cases "hd (faults w)")
       (simp_all add: users_FindOne_def io_call_def)
qed

lemma FindByEmail_absent:
  assumes "\<forall>u \<in> set (users w). User.Email u \<noteq> email"
  shows "\<exists>err. UserRepositoryImpl_FindByEmail email w = (Inl err, w\<lparr>faults := tl (faults w)\<rparr>)"
  using users_FindOne_absent [of w "\<lambda>u. User.Email u = email"] assms
  by (auto simp: UserRepositoryImpl_FindByEmail_def split: prod.splits)

lemma FindByPhone_absent:
  assumes "\<forall>u \<in> set (users w). User.Phone u \<noteq> phone"
  shows "\<exists>err. UserRepositoryImpl_FindByPhone phone w = (Inl err, w\<lparr>faults := tl (faults w)\<rparr>)"
  using users_FindOne_absent [of w "\<lambda>u. User.Phone u = phone"] assms
  by (auto simp: UserRepositoryImpl_FindByPhone_def split: prod.splits)

lemma Create_ok:
  assumes "faults w = False # fs"
    and "\<forall>x \<in> set (users w). User.Email x \<noteq> User.Email user \<and> User.Phone x \<noteq> User.Phone user"
  shows "UserRepositoryImpl_Create user w =
           (Inr (user\<lparr>User.CreatedAt := now w, User.UpdatedAt := now w, User.ID := next_oid w\<rparr>),
            w\<lparr>faults := fs,
              users := users w @ [user\<lparr>User.ID := next_oid w,
                                       User.CreatedAt := bson_time (now w),
                                       User.UpdatedAt := bson_time (now w),
                                       User.LastLoginAt := map_option bson_time (User.LastLoginAt user)\<rparr>],
              next_oid := Suc (next_oid w)\<rparr>)"
proof -
  have "\<not> list_ex (\<lambda>x. User.Email x = User.Email user \<or> User.Phone x = User.Phone user) (users w)"
    using assms(2) by (auto simp: list_ex_iff)
  then show ?thesis
    using assms(1)
    by (simp add: UserRepositoryImpl_Create_def users_InsertOne_def io_call_def Let_def)
qed

lemma GenerateOTP_loop_short:
  "length (entropy w) < n \<Longrightarrow> \<exists>e xs. GenerateOTP_loop n w = (Inl e, w\<lparr>entropy := xs\<rparr>)"
proof (induction n arbitrary: w)
  case 0
  then show ?case by simp
next
  case (Suc n)
  show ?case
  proof (cases "entropy w")
    case Nil
    then have "GenerateOTP_loop (Suc n) w = (Inl (ErrExternal ''crypto/rand: unexpected EOF''),
                  w\<lparr>entropy := entropy w\<rparr>)"
      by (simp add: rand_Int_def)
    then show ?thesis by blast
  next
    case (Cons x xs)
    then have "length (entropy (w\<lparr>entropy := xs\<rparr>)) < n"
      using Suc.prems by simp
    from Suc.IH [OF this] obtain e ys
      where "GenerateOTP_loop n (w\<lparr>entropy := xs\<rparr>) = (Inl e, w\<lparr>entropy := ys\<rparr>)"
      by auto
    then show ?thesis
      using Cons by (auto simp: rand_Int_def)
  qed
qed

lemma GenerateOTP_loop_enough:
  "n \<le> length (entropy w) \<Longrightarrow>
   GenerateOTP_loop n w =
     (Inr (map (\<lambda>x. digits ! (x mod length digits)) (take n (entropy w))),
      w\<lparr>entropy := drop n (entropy w)\<rparr>)"
proof (induction n arbitrary: w)
  case 0
  then show ?case by simp
next
  case (Suc n)
  then obtain x xs where e: "entropy w = x # xs"
    by (cases "entropy w") auto
  with Suc.prems have "n \<le> length (entropy (w\<lparr>entropy := xs\<rparr>))" by simp
  from Suc.IH [OF this] show ?case
    by (simp add: e rand_Int_def)
qed

lemma GenerateOTP_fails:
  assumes "len \<le> 0 \<or> length (entropy w) < nat len"
  shows "\<exists>e xs. GenerateOTP len w = (Inl e, w\<lparr>entropy := xs\<rparr>)"
proof (cases "len \<le> 0")
  case True
  then have "GenerateOTP len w = (Inl (ErrExternal ''OTP length must be positive''),
               w\<lparr>entropy := entropy w\<rparr>)"
    by (simp add: GenerateOTP_def)
  then show ?thesis by blast
next
  case False
  with assms GenerateOTP_loop_short [of w "nat len"] show ?thesis
    by (simp add: GenerateOTP_def)
qed

lemma find_append_new:
  "\<forall>x \<in> set xs. \<not> P x \<Longrightarrow> find P (xs @ [y]) = (if P y then Some y else None)"
  by (induction xs) auto

lemma div_pos_ge1:
  fixes e s :: int
  assumes "0 < s" and "s \<le> e"
  shows "0 < (e div s) * s"
proof -
  have "e - s < (e div s) * s"
    using assms(1) by (rule trunc_bounds)
  with assms(2) show ?thesis by linarith
qed

lemma set_expiry_future:
  assumes "set_expiry w key e = Some t"
  shows "now w < t"
proof (cases "0 < e")
  case True
  have ms: "\<not> e < Millisecond \<Longrightarrow> 0 < (e div Millisecond) * Millisecond"
    by (rule div_pos_ge1) (simp_all add: Millisecond_def)
  have s: "\<not> e < Second \<Longrightarrow> 0 < (e div Second) * Second"
    by (rule div_pos_ge1) (simp_all add: Second_def)
  have m0: "0 < 1 * Millisecond"
    by (simp add: Millisecond_def)
  show ?thesis
    using assms True ms s m0
    by (auto simp: set_expiry_def split: if_splits)
next
  case False
  with assms show ?thesis
    by (auto simp: set_expiry_def redis_lookup_def split: if_splits option.splits)
qed

lemma Store_ok:
  assumes "faults w = False # fs"
  shows "fst (OTPRepositoryImpl_Store email code ttl w) = None"
    and "otp_stored (snd (OTPRepositoryImpl_Store email code ttl w)) email = Some code"
    and "users (snd (OTPRepositoryImpl_Store email code ttl w)) = users w"
    and "faults (snd (OTPRepositoryImpl_Store email code ttl w)) = fs"
proof -
  let ?x = "set_expiry (w\<lparr>faults := fs\<rparr>) (otp_key email) (wrap_int64 (ttl * Minute))"
  have e: "OTPRepositoryImpl_Store email code ttl w =
             (None, w\<lparr>faults := fs,
                      redis := (redis w)(otp_key email \<mapsto> (RString code, ?x))\<rparr>)"
    using assms by (simp add: OTPRepositoryImpl_Store_def Client_Set_def io_call_def)
  show "fst (OTPRepositoryImpl_Store email code ttl w) = None"
    and "users (snd (OTPRepositoryImpl_Store email code ttl w)) = users w"
    and "faults (snd (OTPRepositoryImpl_Store email code ttl w)) = fs"
    by (simp_all add: e)
  show "otp_stored (snd (OTPRepositoryImpl_Store email code ttl w)) email = Some code"
  proof (cases ?x)
    case None
    then show ?thesis
      by (simp add: e otp_stored_def redis_lookup_def redis_string_def)
  next
    case (Some t)
    from set_expiry_future [OF this] have "now w < t" by simp
    then show ?thesis
      using Some by (simp add: e otp_stored_def redis_lookup_def redis_string_def)
  qed
qed

lemma Store_fails:
  assumes "faults w = True # fs"
  shows "OTPRepositoryImpl_Store email code ttl w = (Some redis_error, w\<lparr>faults := fs\<rparr>)"
  using assms by (simp add: OTPRepositoryImpl_Store_def Client_Set_def io_call_def)

lemma SendOTP_fails:
  assumes "faults w = True # fs"
  shows "SendOTP email code w = (Some (ErrExternal ''smtp: delivery failed''), w\<lparr>faults := fs\<rparr>)"
  using assms by (simp add: SendOTP_def io_call_def)

lemma Register_created:
  assumes "ValidatePakistaniPhone (NormalizePakistaniPhone (RegisterRequest.Phone req))"
    and "IsValidRole (RegisterRequest.Role req)"
    and "HashPassword uc (RegisterRequest.Password req) = Inr h"
    and "\<forall>u \<in> set (users w). User.Email u \<noteq> RegisterRequest.Email req
           \<and> User.Phone u \<noteq> NormalizePakistaniPhone (RegisterRequest.Phone req)"
    and "faults w = f1 # f2 # False # rest"
  shows "\<exists>user1 u.
           User.Email u = RegisterRequest.Email req \<and> \<not> User.IsVerified u \<and> User.IsActive u
           \<and> Register uc req w =
               (case GenerateOTP (otpLength uc)
                       (w\<lparr>faults := rest, users := users w @ [u],
                          next_oid := Suc (next_oid w)\<rparr>) of
                  (Inl err, w4) \<Rightarrow> (Inl err, w4)
                | (Inr otp, w4) \<Rightarrow>
                    (case OTPRepositoryImpl_Store (RegisterRequest.Email req) otp
                            (otpExpireMinutes uc) w4 of
                       (Some err, w5) \<Rightarrow> (Inl err, w5)
                     | (None, w5) \<Rightarrow>
                         (case SendOTP (RegisterRequest.Email req) otp w5 of
                            (Some err, w6) \<Rightarrow> (Inl err, w6)
                          | (None, w6) \<Rightarrow> (Inr user1, w6))))"
proof -
  let ?np = "NormalizePakistaniPhone (RegisterRequest.Phone req)"
  let ?w1 = "w\<lparr>faults := f2 # False # rest\<rparr>"
  let ?w2 = "w\<lparr>faults := False # rest\<rparr>"
  let ?user = "\<lparr> User.ID = 0,
                 User.Email = RegisterRequest.Email req,
                 User.Phone = ?np,
                 User.Password = h,
                 User.FirstName = RegisterRequest.FirstName req,
                 User.LastName = RegisterRequest.LastName req,
                 User.Role = RegisterRequest.Role req,
                 User.IsVerified = False,
                 User.IsActive = True,
                 User.CreatedAt = now w,
                 User.UpdatedAt = now w,
                 User.LastLoginAt = None \<rparr>"
  from FindByEmail_absent [of w "RegisterRequest.Email req"] assms(4,5)
  obtain err1 where s1: "UserRepositoryImpl_FindByEmail (RegisterRequest.Email req) w = (Inl err1, ?w1)"
    by auto
  from FindByPhone_absent [of ?w1 ?np] assms(4)
  obtain err2 where s2: "UserRepositoryImpl_FindByPhone ?np ?w1 = (Inl err2, ?w2)"
    by auto
  let ?user1 = "\<lparr> User.ID = next_oid w,
                 User.Email = RegisterRequest.Email req,
                 User.Phone = ?np,
                 User.Password = h,
                 User.FirstName = RegisterRequest.FirstName req,
                 User.LastName = RegisterRequest.LastName req,
                 User.Role = RegisterRequest.Role req,
                 User.IsVerified = False,
                 User.IsActive = True,
                 User.CreatedAt = now w,
                 User.UpdatedAt = now w,
                 User.LastLoginAt = None \<rparr>"
  let ?u = "\<lparr> User.ID = next_oid w,
                 User.Email = RegisterRequest.Email req,
                 User.Phone = ?np,
                 User.Password = h,
                 User.FirstName = RegisterRequest.FirstName req,
                 User.LastName = RegisterRequest.LastName req,
                 User.Role = RegisterRequest.Role req,
                 User.IsVerified = False,
                 User.IsActive = True,
                 User.CreatedAt = bson_time (now w),
                 User.UpdatedAt = bson_time (now w),
                 User.LastLoginAt = None \<rparr>"
  have s3: "UserRepositoryImpl_Create ?user ?w2 =
           (Inr ?user1,
            w\<lparr>faults := rest, users := users w @ [?u], next_oid := Suc (next_oid w)\<rparr>)"
    using Create_ok [of ?w2 rest ?user] assms(4) by simp
  show ?thesis
    apply (rule exI [where x = ?user1])
    apply (rule exI [where x = ?u])
    using assms(1,2,3)
    apply (simp add: Register_def Let_def s1 s2 s3)
    done
qed

lemma otp_stored_faults [simp]: "otp_stored (w\<lparr>faults := fs\<rparr>) email = otp_stored w email"
  by (simp add: otp_stored_def)

lemma otp_stored_same:
  "redis w' = redis w \<Longrightarrow> now w' = now w \<Longrightarrow> otp_stored w' email = otp_stored w email"
  by (simp add: otp_stored_def redis_lookup_def split: option.splits prod.splits)

lemma GenerateOTP_ok:
  assumes "0 < otpLength uc" and "nat (otpLength uc) \<le> length (entropy w)"
  shows "GenerateOTP (otpLength uc) w =
           (Inr (next_otp uc w), w\<lparr>entropy := drop (nat (otpLength uc)) (entropy w)\<rparr>)"
  using assms GenerateOTP_loop_enough [of "nat (otpLength uc)" w]
  by (simp add: GenerateOTP_def next_otp_def)

lemma Register_stops_before_store:
  assumes "ValidatePakistaniPhone (NormalizePakistaniPhone (RegisterRequest.Phone req))"
    and "IsValidRole (RegisterRequest.Role req)"
    and "HashPassword uc (RegisterRequest.Password req) = Inr h"
    and "\<forall>u \<in> set (users w). User.Email u \<noteq> RegisterRequest.Email req
           \<and> User.Phone u \<noteq> NormalizePakistaniPhone (RegisterRequest.Phone req)"
    and "faults w = f1 # f2 # False # rest"
    and "otpLength uc \<le> 0 \<or> length (entropy w) < nat (otpLength uc) \<or> take 1 rest = [True]"
  shows "isl (fst (Register uc req w))
       \<and> unverified_active (snd (Register uc req w)) (RegisterRequest.Email req)
       \<and> redis (snd (Register uc req w)) = redis w
       \<and> otp_stored (snd (Register uc req w)) (RegisterRequest.Email req)
           = otp_stored w (RegisterRequest.Email req)"
proof -
  from Register_created [OF assms(1-5)] obtain user1 u
    where u: "User.Email u = RegisterRequest.Email req" "\<not> User.IsVerified u" "User.IsActive u"
      and r: "Register uc req w =
               (case GenerateOTP (otpLength uc)
                       (w\<lparr>faults := rest, users := users w @ [u],
                          next_oid := Suc (next_oid w)\<rparr>) of
                  (Inl err, w4) \<Rightarrow> (Inl err, w4)
                | (Inr otp, w4) \<Rightarrow>
                    (case OTPRepositoryImpl_Store (RegisterRequest.Email req) otp
                            (otpExpireMinutes uc) w4 of
                       (Some err, w5) \<Rightarrow> (Inl err, w5)
                     | (None, w5) \<Rightarrow>
                         (case SendOTP (RegisterRequest.Email req) otp w5 of
                            (Some err, w6) \<Rightarrow> (Inl err, w6)
                          | (None, w6) \<Rightarrow> (Inr user1, w6))))"
    by blast
  let ?w3 = "w\<lparr>faults := rest, users := users w @ [u], next_oid := Suc (next_oid w)\<rparr>"
  have f: "find (\<lambda>x. User.Email x = RegisterRequest.Email req) (users w @ [u]) = Some u"
    using assms(4) u(1) by (simp add: find_append_new)
  show ?thesis
  proof (cases "otpLength uc \<le> 0 \<or> length (entropy w) < nat (otpLength uc)")
    case True
    then have "otpLength uc \<le> 0 \<or> length (entropy ?w3) < nat (otpLength uc)"
      by simp
    from GenerateOTP_fails [OF this] obtain e xs
      where "GenerateOTP (otpLength uc) ?w3 = (Inl e, ?w3\<lparr>entropy := xs\<rparr>)"
      by blast
    then have e: "Register uc req w = (Inl e, ?w3\<lparr>entropy := xs\<rparr>)"
      by (simp add: r)
    have "otp_stored (?w3\<lparr>entropy := xs\<rparr>) (RegisterRequest.Email req)
            = otp_stored w (RegisterRequest.Email req)"
      by (rule otp_stored_same) simp_all
    then show ?thesis
      using u f by (simp add: e unverified_active_def)
  next
    case False
    let ?w4 = "w\<lparr>faults := rest, users := users w @ [u], next_oid := Suc (next_oid w),
                 entropy := drop (nat (otpLength uc)) (entropy w)\<rparr>"
    have n: "next_otp uc ?w3 = next_otp uc w"
      by (simp add: next_otp_def)
    have g: "GenerateOTP (otpLength uc) ?w3 = (Inr (next_otp uc w), ?w4)"
      using False GenerateOTP_ok [of uc ?w3] by (simp add: n)
    from False assms(6) obtain rest' where "rest = True # rest'"
      by (cases rest) auto
    then have st: "OTPRepositoryImpl_Store (RegisterRequest.Email req) (next_otp uc w)
                 (otpExpireMinutes uc) ?w4
               = (Some redis_error, ?w4\<lparr>faults := rest'\<rparr>)"
      by (intro Store_fails) simp
    have e: "Register uc req w = (Inl redis_error, ?w4\<lparr>faults := rest'\<rparr>)"
      by (simp add: r g st)
    have "otp_stored (?w4\<lparr>faults := rest'\<rparr>) (RegisterRequest.Email req)
            = otp_stored w (RegisterRequest.Email req)"
      by (rule otp_stored_same) simp_all
    then show ?thesis
      using u f by (simp add: e unverified_active_def)
  qed
qed

lemma Register_stops_at_dispatch:
  assumes "ValidatePakistaniPhone (NormalizePakistaniPhone (RegisterRequest.Phone req))"
    and "IsValidRole (RegisterRequest.Role req)"
    and "HashPassword uc (RegisterRequest.Password req) = Inr h"
    and "\<forall>u \<in> set (users w). User.Email u \<noteq> RegisterRequest.Email req
           \<and> User.Phone u \<noteq> NormalizePakistaniPhone (RegisterRequest.Phone req)"
    and "faults w = f1 # f2 # False # rest"
    and "0 < otpLength uc \<and> nat (otpLength uc) \<le> length (entropy w)
           \<and> take 2 rest = [False, True]"
  shows "fst (Register uc req w) = Inl (ErrExternal ''smtp: delivery failed'')
       \<and> unverified_active (snd (Register uc req w)) (RegisterRequest.Email req)
       \<and> otp_stored (snd (Register uc req w)) (RegisterRequest.Email req)
           = Some (next_otp uc w)"
proof -
  from Register_created [OF assms(1-5)] obtain user1 u
    where u: "User.Email u = RegisterRequest.Email req" "\<not> User.IsVerified u" "User.IsActive u"
      and r: "Register uc req w =
               (case GenerateOTP (otpLength uc)
                       (w\<lparr>faults := rest, users := users w @ [u],
                          next_oid := Suc (next_oid w)\<rparr>) of
                  (Inl err, w4) \<Rightarrow> (Inl err, w4)
                | (Inr otp, w4) \<Rightarrow>
                    (case OTPRepositoryImpl_Store (RegisterRequest.Email req) otp
                            (otpExpireMinutes uc) w4 of
                       (Some err, w5) \<Rightarrow> (Inl err, w5)
                     | (None, w5) \<Rightarrow>
                         (case SendOTP (RegisterRequest.Email req) otp w5 of
                            (Some err, w6) \<Rightarrow> (Inl err, w6)
                          | (None, w6) \<Rightarrow> (Inr user1, w6))))"
    by blast
  let ?w3 = "w\<lparr>faults := rest, users := users w @ [u], next_oid := Suc (next_oid w)\<rparr>"
  let ?w4 = "w\<lparr>faults := rest, users := users w @ [u], next_oid := Suc (next_oid w),
               entropy := drop (nat (otpLength uc)) (entropy w)\<rparr>"
  let ?st = "OTPRepositoryImpl_Store (RegisterRequest.Email req) (next_otp uc w)
               (otpExpireMinutes uc) ?w4"
  have f: "find (\<lambda>x. User.Email x = RegisterRequest.Email req) (users w @ [u]) = Some u"
    using assms(4) u(1) by (simp add: find_append_new)
  have n: "next_otp uc ?w3 = next_otp uc w"
    by (simp add: next_otp_def)
  have g: "GenerateOTP (otpLength uc) ?w3 = (Inr (next_otp uc w), ?w4)"
    using assms(6) GenerateOTP_ok [of uc ?w3] by (simp add: n)
  from assms(6) obtain rest' where rest: "rest = False # True # rest'"
    by (cases rest; cases "tl rest") auto
  then have fw4: "faults ?w4 = False # True # rest'"
    by simp
  obtain w5 where st: "?st = (None, w5)"
    and o5: "otp_stored w5 (RegisterRequest.Email req) = Some (next_otp uc w)"
    and u5: "users w5 = users ?w4" and f5: "faults w5 = True # rest'"
    using Store_ok [OF fw4, of "RegisterRequest.Email req" "next_otp uc w" "otpExpireMinutes uc"]
    by (cases ?st) auto
  have sd: "SendOTP (RegisterRequest.Email req) (next_otp uc w) w5
              = (Some (ErrExternal ''smtp: delivery failed''), w5\<lparr>faults := rest'\<rparr>)"
    using f5 by (rule SendOTP_fails)
  have "Register uc req w = (Inl (ErrExternal ''smtp: delivery failed''), w5\<lparr>faults := rest'\<rparr>)"
    by (simp add: r g st sd)
  then show ?thesis
    using u f o5 u5 by (simp add: unverified_active_def)
qed

text \<open>
  C6, amended. Register is not atomic. When the user has been created (the request is
  valid, the password hashes, no user has the email or the phone, the insert goes
  through) and then the generation of the OTP fails (non-positive length or random
  source exhausted) or its storage fails, Register returns an error, the user stays
  persisted as unverified and active, and the OTP store is as it was before the call:
  no OTP has been stored for the email. When instead generation and storage succeed and
  the dispatch fails, Register returns an error, the user stays persisted as unverified
  and active, and the OTP just stored stays active for the email.
\<close>

theorem C6_register_partial_failure:
  assumes "ValidatePakistaniPhone (NormalizePakistaniPhone (RegisterRequest.Phone req))"
    and "IsValidRole (RegisterRequest.Role req)"
    and "HashPassword uc (RegisterRequest.Password req) = Inr h"
    and "\<forall>u \<in> set (users w). User.Email u \<noteq> RegisterRequest.Email req
           \<and> User.Phone u \<noteq> NormalizePakistaniPhone (RegisterRequest.Phone req)"
    and "faults w = f1 # f2 # False # rest"
  shows "(otpLength uc \<le> 0 \<or> length (entropy w) < nat (otpLength uc) \<or> take 1 rest = [True]
          \<longrightarrow> isl (fst (Register uc req w))
             \<and> unverified_active (snd (Register uc req w)) (RegisterRequest.Email req)
             \<and> redis (snd (Register uc req w)) = redis w
             \<and> otp_stored (snd (Register uc req w)) (RegisterRequest.Email req)
                 = otp_stored w (RegisterRequest.Email req))
       \<and> (0 < otpLength uc \<and> nat (otpLength uc) \<le> length (entropy w)
             \<and> take 2 rest = [False, True]
          \<longrightarrow> isl (fst (Register uc req w))
             \<and> unverified_active (snd (Register uc req w)) (RegisterRequest.Email req)
             \<and> otp_stored (snd (Register uc req w)) (RegisterRequest.Email req)
                 = Some (next_otp uc w))"
proof -
  have "0 < otpLength uc \<and> nat (otpLength uc) \<le> length (entropy w)
             \<and> take 2 rest = [False, True]
          \<Longrightarrow> isl (fst (Register uc req w))"
    using Register_stops_at_dispatch [OF assms] by simp
  then show ?thesis
    using Register_stops_before_store [OF assms] Register_stops_at_dispatch [OF assms]
    by blast
qed

lemma example_register_pre:
  "ValidatePakistaniPhone (NormalizePakistaniPhone (RegisterRequest.Phone example_register))"
  "NormalizePakistaniPhone (RegisterRequest.Phone example_register) = ''+923001234560''"
  "IsValidRole (RegisterRequest.Role example_register)"
  "HashPassword example_uc (RegisterRequest.Password example_register) = Inr ''hashed:Password123''"
  "RegisterRequest.Email example_register = ''new@example.com''"
  by (simp_all add: example_register_def NormalizePakistaniPhone_def ValidatePakistaniPhone_def
      ReplaceAll_empty_def HasPrefix_def phone_regex_match_def is_digit_def IsValidRole_def
      RoleCustomer_def example_uc_def)

lemma example_world_new_user:
  "\<forall>u \<in> set (users example_world). User.Email u \<noteq> ''new@example.com''
      \<and> User.Phone u \<noteq> ''+923001234560''"
  by (simp add: example_defs)

lemma example_next_otp: "next_otp example_uc example_world = ''314159''"
  by (simp add: next_otp_def example_defs digits_def)

lemma example_world_smtp_down_fields:
  "users example_world_smtp_down = users example_world"
  "entropy example_world_smtp_down = entropy example_world"
  "faults example_world_smtp_down = False # False # False # [False, True]"
  "next_otp example_uc example_world_smtp_down = ''314159''"
  "otp_stored example_world_smtp_down ''new@example.com'' = None"
  by (simp_all add: example_world_smtp_down_def next_otp_def example_defs digits_def
      otp_stored_def redis_lookup_def otp_key_def)

lemma example_world_redis_down_fields:
  "users example_world_redis_down = users example_world"
  "entropy example_world_redis_down = entropy example_world"
  "faults example_world_redis_down = False # False # False # [True]"
  "otp_stored example_world_redis_down ''new@example.com'' = None"
  by (simp_all add: example_world_redis_down_def example_defs
      otp_stored_def redis_lookup_def otp_key_def)

lemma example_otp_config:
  "0 < otpLength example_uc \<and> nat (otpLength example_uc) \<le> length (entropy example_world)"
  by (simp add: example_defs)

text \<open>
  C6 as stated fails when it is the dispatch that fails: the OTP has been stored by
  then and stays. The first four store calls go through, the email collaborator
  refuses, and Register returns its error with the new user persisted as unverified and
  active and the code 314159 alive for that email.
\<close>

theorem C6_counterexample:
  "fst (Register example_uc example_register example_world_smtp_down)
     = Inl (ErrExternal ''smtp: delivery failed'')
   \<and> unverified_active (snd (Register example_uc example_register example_world_smtp_down))
       ''new@example.com''
   \<and> otp_stored (snd (Register example_uc example_register example_world_smtp_down))
       ''new@example.com'' = Some ''314159''"
proof -
  have n: "\<forall>u \<in> set (users example_world_smtp_down).
             User.Email u \<noteq> RegisterRequest.Email example_register
             \<and> User.Phone u \<noteq> NormalizePakistaniPhone (RegisterRequest.Phone example_register)"
    using example_world_new_user
    by (simp add: example_register_pre example_world_smtp_down_fields)
  have c: "0 < otpLength example_uc
           \<and> nat (otpLength example_uc) \<le> length (entropy example_world_smtp_down)
           \<and> take 2 [False, True] = [False, True]"
    using example_otp_config by (simp add: example_world_smtp_down_fields)
  from Register_stops_at_dispatch [OF example_register_pre(1) example_register_pre(3)
      example_register_pre(4) n example_world_smtp_down_fields(3) c]
  show ?thesis
    by (simp add: example_register_pre example_world_smtp_down_fields)
qed

theorem C6_register_partial_failure_witness:
  "ValidatePakistaniPhone (NormalizePakistaniPhone (RegisterRequest.Phone example_register))
   \<and> IsValidRole (RegisterRequest.Role example_register)
   \<and> HashPassword example_uc (RegisterRequest.Password example_register)
       = Inr ''hashed:Password123''
   \<and> find (\<lambda>u. User.Email u = RegisterRequest.Email example_register
                  \<or> User.Phone u = NormalizePakistaniPhone (RegisterRequest.Phone example_register))
         (users example_world_redis_down) = None
   \<and> faults example_world_redis_down = False # False # False # [True]
   \<and> take 1 [True] = [True]
   \<and> otp_stored example_world_redis_down ''new@example.com'' = None
   \<and> isl (fst (Register example_uc example_register example_world_redis_down))
   \<and> unverified_active (snd (Register example_uc example_register example_world_redis_down))
       ''new@example.com''
   \<and> otp_stored (snd (Register example_uc example_register example_world_redis_down))
       ''new@example.com'' = None
   \<and> faults example_world_smtp_down = False # False # False # [False, True]
   \<and> 0 < otpLength example_uc
   \<and> nat (otpLength example_uc) \<le> length (entropy example_world_smtp_down)
   \<and> take 2 [False, True] = [False, True]
   \<and> isl (fst (Register example_uc example_register example_world_smtp_down))
   \<and> unverified_active (snd (Register example_uc example_register example_world_smtp_down))
       ''new@example.com''
   \<and> otp_stored (snd (Register example_uc example_register example_world_smtp_down))
       ''new@example.com'' = Some ''314159''"
proof -
  have n1: "\<forall>u \<in> set (users example_world_redis_down).
             User.Email u \<noteq> RegisterRequest.Email example_register
             \<and> User.Phone u \<noteq> NormalizePakistaniPhone (RegisterRequest.Phone example_register)"
    using example_world_new_user
    by (simp add: example_register_pre example_world_redis_down_fields)
  have n2: "\<forall>u \<in> set (users example_world_smtp_down).
             User.Email u \<noteq> RegisterRequest.Email example_register
             \<and> User.Phone u \<noteq> NormalizePakistaniPhone (RegisterRequest.Phone example_register)"
    using example_world_new_user
    by (simp add: example_register_pre example_world_smtp_down_fields)
  have c: "0 < otpLength example_uc"
    "nat (otpLength example_uc) \<le> length (entropy example_world_smtp_down)"
    using example_otp_config by (simp_all add: example_world_smtp_down_fields)
  from C6_register_partial_failure [OF example_register_pre(1) example_register_pre(3)
      example_register_pre(4) n1 example_world_redis_down_fields(3)]
  have a: "isl (fst (Register example_uc example_register example_world_redis_down))
     \<and> unverified_active (snd (Register example_uc example_register example_world_redis_down))
         ''new@example.com''
     \<and> otp_stored (snd (Register example_uc example_register example_world_redis_down))
         ''new@example.com'' = None"
    by (simp add: example_register_pre example_world_redis_down_fields)
  from C6_register_partial_failure [OF example_register_pre(1) example_register_pre(3)
      example_register_pre(4) n2 example_world_smtp_down_fields(3)]
  have b: "isl (fst (Register example_uc example_register example_world_smtp_down))
     \<and> unverified_active (snd (Register example_uc example_register example_world_smtp_down))
         ''new@example.com''
     \<and> otp_stored (snd (Register example_uc example_register example_world_smtp_down))
         ''new@example.com'' = Some ''314159''"
    using c by (simp add: example_register_pre example_world_smtp_down_fields)
  show ?thesis
    using a b c n1 example_register_pre(1,3,4)
    by (simp add: example_world_redis_down_fields example_world_smtp_down_fields
        find_None_iff_ball)
qed

subsection \<open>Rotation of refresh tokens\<close>

lemma find_append_old: "find P xs = Some x \<Longrightarrow> find P (xs @ ys) = Some x"
  by (induction xs) (auto split: if_splits)

lemma find_revoke_first:
  "find (\<lambda>r. Token r = t') (update_first (\<lambda>r. Token r = t) (\<lambda>r. r\<lparr>IsRevoked := True\<rparr>) xs)
     = map_option (\<lambda>r. if t' = t then r\<lparr>IsRevoked := True\<rparr> else r)
         (find (\<lambda>r. Token r = t') xs)"
  by (induction xs) (auto simp: option.map_ident)

lemma revoked_row_append:
  assumes "revoked_row w t" and "refresh_tokens w1 = refresh_tokens w @ ys"
  shows "revoked_row w1 t"
  using assms
  by (auto simp: revoked_row_def token_row_def find_append_old split: option.splits)

lemma revoked_row_revoke:
  assumes "revoked_row w t'"
    and "refresh_tokens w1 =
           update_first (\<lambda>r. Token r = t) (\<lambda>r. r\<lparr>IsRevoked := True\<rparr>) (refresh_tokens w)"
  shows "revoked_row w1 t'"
  using assms
  by (auto simp: revoked_row_def token_row_def find_revoke_first split: option.splits)

lemma revoked_row_same:
  "refresh_tokens w1 = refresh_tokens w \<Longrightarrow> revoked_row w1 t = revoked_row w t"
  by (simp add: revoked_row_def token_row_def)

lemma tokens_io_call: "io_call w = (f, w1) \<Longrightarrow> refresh_tokens w1 = refresh_tokens w"
  by (auto simp: io_call_def split: list.splits)

lemma tokens_users_FindOne:
  "users_FindOne P w = (r, w1) \<Longrightarrow> refresh_tokens w1 = refresh_tokens w"
  by (auto simp: users_FindOne_def split: prod.splits bool.splits dest: tokens_io_call)

lemma tokens_FindByEmail:
  "UserRepositoryImpl_FindByEmail e w = (r, w1) \<Longrightarrow> refresh_tokens w1 = refresh_tokens w"
  by (auto simp: UserRepositoryImpl_FindByEmail_def split: prod.splits dest: tokens_users_FindOne)

lemma tokens_FindByPhone:
  "UserRepositoryImpl_FindByPhone e w = (r, w1) \<Longrightarrow> refresh_tokens w1 = refresh_tokens w"
  by (auto simp: UserRepositoryImpl_FindByPhone_def split: prod.splits dest: tokens_users_FindOne)

lemma tokens_FindByID:
  "UserRepositoryImpl_FindByID i w = (r, w1) \<Longrightarrow> refresh_tokens w1 = refresh_tokens w"
  by (auto simp: UserRepositoryImpl_FindByID_def split: prod.splits dest: tokens_users_FindOne)

lemma tokens_users_UpdateOne:
  "users_UpdateOne P f w = (r, w1) \<Longrightarrow> refresh_tokens w1 = refresh_tokens w"
  by (auto simp: users_UpdateOne_def split: prod.splits bool.splits dest: tokens_io_call)

lemma tokens_UpdateVerificationStatus:
  "UserRepositoryImpl_UpdateVerificationStatus e b w = (r, w1) \<Longrightarrow>
   refresh_tokens w1 = refresh_tokens w"
  by (auto simp: UserRepositoryImpl_UpdateVerificationStatus_def dest: tokens_users_UpdateOne)

lemma tokens_UpdateLastLogin:
  "UserRepositoryImpl_UpdateLastLogin i w = (r, w1) \<Longrightarrow> refresh_tokens w1 = refresh_tokens w"
  by (auto simp: UserRepositoryImpl_UpdateLastLogin_def dest: tokens_users_UpdateOne)

lemma tokens_Create_user:
  "UserRepositoryImpl_Create u w = (r, w1) \<Longrightarrow> refresh_tokens w1 = refresh_tokens w"
  by (auto simp: UserRepositoryImpl_Create_def users_InsertOne_def Let_def
      split: prod.splits bool.splits if_splits sum.splits dest: tokens_io_call)

lemma tokens_rand_Int: "rand_Int n w = (r, w1) \<Longrightarrow> refresh_tokens w1 = refresh_tokens w"
  by (auto simp: rand_Int_def split: list.splits)

lemma tokens_GenerateOTP_loop:
  "GenerateOTP_loop n w = (r, w1) \<Longrightarrow> refresh_tokens w1 = refresh_tokens w"
proof (induction n arbitrary: w r w1)
  case 0
  then show ?case by simp
next
  case (Suc n)
  then show ?case
    by (auto split: prod.splits sum.splits dest!: tokens_rand_Int)
qed

lemma tokens_GenerateOTP:
  "GenerateOTP n w = (r, w1) \<Longrightarrow> refresh_tokens w1 = refresh_tokens w"
  by (auto simp: GenerateOTP_def split: if_splits dest: tokens_GenerateOTP_loop)

lemma tokens_Client_Set:
  "Client_Set k v d w = (r, w1) \<Longrightarrow> refresh_tokens w1 = refresh_tokens w"
  by (auto simp: Client_Set_def split: prod.splits bool.splits dest: tokens_io_call)

lemma tokens_Client_Get:
  "Client_Get k w = (r, w1) \<Longrightarrow> refresh_tokens w1 = refresh_tokens w"
  by (auto simp: Client_Get_def split: prod.splits bool.splits option.splits dest: tokens_io_call)

lemma tokens_Client_Get_Int:
  "Client_Get_Int k w = (r, w1) \<Longrightarrow> refresh_tokens w1 = refresh_tokens w"
  by (auto simp: Client_Get_Int_def split: prod.splits bool.splits option.splits sum.splits
      dest: tokens_io_call)

lemma tokens_Client_Delete:
  "Client_Delete k w = (r, w1) \<Longrightarrow> refresh_tokens w1 = refresh_tokens w"
  by (auto simp: Client_Delete_def split: prod.splits bool.splits dest: tokens_io_call)

lemma tokens_Client_Exists:
  "Client_Exists k w = (r, w1) \<Longrightarrow> refresh_tokens w1 = refresh_tokens w"
  by (auto simp: Client_Exists_def split: prod.splits bool.splits dest: tokens_io_call)

lemma tokens_Client_Increment:
  "Client_Increment k w = (r, w1) \<Longrightarrow> refresh_tokens w1 = refresh_tokens w"
  by (auto simp: Client_Increment_def split: prod.splits bool.splits option.splits sum.splits
      if_splits dest: tokens_io_call)

lemma tokens_Client_Expire:
  "Client_Expire k d w = (r, w1) \<Longrightarrow> refresh_tokens w1 = refresh_tokens w"
  by (auto simp: Client_Expire_def Let_def split: prod.splits bool.splits option.splits if_splits
      dest: tokens_io_call)

lemma tokens_SendOTP:
  "SendOTP e c w = (r, w1) \<Longrightarrow> refresh_tokens w1 = refresh_tokens w"
  by (auto simp: SendOTP_def split: prod.splits bool.splits dest: tokens_io_call)

lemmas tokens_frame =
  tokens_FindByEmail tokens_FindByPhone tokens_FindByID tokens_UpdateVerificationStatus
  tokens_UpdateLastLogin tokens_Create_user tokens_GenerateOTP tokens_Client_Set
  tokens_Client_Get tokens_Client_Get_Int tokens_Client_Delete tokens_Client_Exists
  tokens_Client_Increment tokens_Client_Expire tokens_SendOTP

lemma tokens_snd_SendOTP: "refresh_tokens (snd (SendOTP e c w)) = refresh_tokens w"
  by (cases "SendOTP e c w") (auto dest: tokens_SendOTP)

lemma tokens_snd_FindByID:
  "refresh_tokens (snd (UserRepositoryImpl_FindByID i w)) = refresh_tokens w"
  by (cases "UserRepositoryImpl_FindByID i w") (auto dest: tokens_FindByID)

lemma tokens_Register: "refresh_tokens (snd (Register uc req w)) = refresh_tokens w"
  by (auto simp: Register_def Let_def OTPRepositoryImpl_Store_def
      split: prod.splits sum.splits option.splits dest!: tokens_frame)

lemma tokens_VerifyOTP: "refresh_tokens (snd (VerifyOTP uc req w)) = refresh_tokens w"
  by (auto simp: VerifyOTP_def OTPRepositoryImpl_Get_def OTPRepositoryImpl_Delete_def
      split: prod.splits sum.splits option.splits dest!: tokens_frame)

lemma tokens_ResendOTP: "refresh_tokens (snd (ResendOTP uc email w)) = refresh_tokens w"
  by (auto simp: ResendOTP_def OTPRepositoryImpl_Exists_def OTPRepositoryImpl_Store_def
      tokens_snd_SendOTP split: prod.splits sum.splits option.splits dest!: tokens_frame)

lemma tokens_GetUserByID: "refresh_tokens (snd (GetUserByID uc userID w)) = refresh_tokens w"
  by (auto simp: GetUserByID_def tokens_snd_FindByID split: prod.splits sum.splits dest!: tokens_frame)

lemma tokens_CheckRateLimit:
  "refresh_tokens (snd (CheckRateLimit key limit windowSeconds w)) = refresh_tokens w"
  by (auto simp: CheckRateLimit_def Let_def split: prod.splits dest!: tokens_frame)

lemma tokens_IncrementCounter:
  "refresh_tokens (snd (IncrementCounter key windowSeconds w)) = refresh_tokens w"
  by (auto simp: IncrementCounter_def Let_def split: prod.splits sum.splits option.splits
      dest!: tokens_frame)

lemma revoked_Create_token:
  assumes "RefreshTokenRepositoryImpl_Create tok w = (r, w1)" and "revoked_row w t"
  shows "revoked_row w1 t"
proof -
  obtain f w0 where c: "io_call w = (f, w0)"
    by (cases "io_call w")
  then have t0: "refresh_tokens w0 = refresh_tokens w"
    by (rule tokens_io_call)
  have "refresh_tokens w1 = refresh_tokens w \<or> (\<exists>ys. refresh_tokens w1 = refresh_tokens w @ ys)"
    using assms(1) t0
    by (auto simp: RefreshTokenRepositoryImpl_Create_def refresh_tokens_InsertOne_def Let_def c
        split: if_splits bool.splits)
  then show ?thesis
    using assms(2) revoked_row_append revoked_row_same by blast
qed

lemma revoked_Revoke:
  assumes "RefreshTokenRepositoryImpl_Revoke t0 w = (r, w1)" and "revoked_row w t"
  shows "revoked_row w1 t"
proof -
  obtain f w0 where c: "io_call w = (f, w0)"
    by (cases "io_call w")
  then have t0: "refresh_tokens w0 = refresh_tokens w"
    by (rule tokens_io_call)
  have "refresh_tokens w1 = refresh_tokens w
        \<or> refresh_tokens w1 =
            update_first (\<lambda>r. Token r = t0) (\<lambda>r. r\<lparr>IsRevoked := True\<rparr>) (refresh_tokens w)"
    using assms(1) t0
    by (auto simp: RefreshTokenRepositoryImpl_Revoke_def refresh_tokens_UpdateOne_def c
        split: bool.splits)
  then show ?thesis
    using assms(2) revoked_row_revoke revoked_row_same by blast
qed

lemma Revoke_done:
  assumes "RefreshTokenRepositoryImpl_Revoke t w = (None, w1)" and "token_row w t = Some r"
  shows "revoked_row w1 t"
proof -
  obtain f w0 where c: "io_call w = (f, w0)"
    by (cases "io_call w")
  then have t0: "refresh_tokens w0 = refresh_tokens w"
    by (rule tokens_io_call)
  have "refresh_tokens w1 =
            update_first (\<lambda>r. Token r = t) (\<lambda>r. r\<lparr>IsRevoked := True\<rparr>) (refresh_tokens w)"
    using assms(1) t0
    by (auto simp: RefreshTokenRepositoryImpl_Revoke_def refresh_tokens_UpdateOne_def c
        split: bool.splits)
  then show ?thesis
    using assms(2) by (simp add: revoked_row_def token_row_def find_revoke_first)
qed

lemma FindByToken_found:
  assumes "RefreshTokenRepositoryImpl_FindByToken t w = (Inr r, w1)"
  shows "token_row w t = Some r" and "refresh_tokens w1 = refresh_tokens w"
proof -
  obtain f w0 where c: "io_call w = (f, w0)"
    by (cases "io_call w")
  then have t0: "refresh_tokens w0 = refresh_tokens w"
    by (rule tokens_io_call)
  show "token_row w t = Some r" and "refresh_tokens w1 = refresh_tokens w"
    using assms t0
    by (auto simp: RefreshTokenRepositoryImpl_FindByToken_def refresh_tokens_FindOne_def c
        token_row_def split: bool.splits option.splits)
qed

lemma tokens_FindByToken:
  assumes "RefreshTokenRepositoryImpl_FindByToken t w = (r, w1)"
  shows "refresh_tokens w1 = refresh_tokens w"
proof -
  obtain f w0 where c: "io_call w = (f, w0)"
    by (cases "io_call w")
  then have t0: "refresh_tokens w0 = refresh_tokens w"
    by (rule tokens_io_call)
  show ?thesis
    using assms t0
    by (auto simp: RefreshTokenRepositoryImpl_FindByToken_def refresh_tokens_FindOne_def c
        split: bool.splits option.splits)
qed

lemma keeps_revoked:
  "refresh_tokens w1 = refresh_tokens w \<Longrightarrow> \<forall>t. revoked_row w t \<longrightarrow> revoked_row w1 t"
  by (simp add: revoked_row_def token_row_def)

lemmas revoked_frame = tokens_frame [THEN keeps_revoked] tokens_FindByToken [THEN keeps_revoked]

lemma revoked_Create_token_all:
  "RefreshTokenRepositoryImpl_Create tok w = (r, w1) \<Longrightarrow>
   \<forall>t. revoked_row w t \<longrightarrow> revoked_row w1 t"
  using revoked_Create_token by blast

lemma revoked_Revoke_all:
  "RefreshTokenRepositoryImpl_Revoke t0 w = (r, w1) \<Longrightarrow>
   \<forall>t. revoked_row w t \<longrightarrow> revoked_row w1 t"
  using revoked_Revoke by blast

lemma revoked_Login:
  assumes "revoked_row w t"
  shows "revoked_row (snd (Login uc req w)) t"
  using assms
  by (auto simp: Login_def Let_def split: prod.splits sum.splits option.splits
      dest!: revoked_frame revoked_Create_token_all)

lemma revoked_RefreshToken:
  assumes "revoked_row w t"
  shows "revoked_row (snd (RefreshToken uc req w)) t"
  using assms
  by (auto simp: RefreshToken_def Let_def split: prod.splits sum.splits option.splits
      dest!: revoked_frame revoked_Create_token_all revoked_Revoke_all)

lemma RefreshToken_success_revokes:
  assumes "fst (RefreshToken uc \<lparr>RefreshTokenRequest.RefreshToken = t\<rparr> w) = Inr resp"
  shows "revoked_row (snd (RefreshToken uc \<lparr>RefreshTokenRequest.RefreshToken = t\<rparr> w)) t"
proof -
  let ?req = "\<lparr>RefreshTokenRequest.RefreshToken = t\<rparr>"
  obtain claims where v: "ValidateToken (jwtUtil uc) t (now w) = Inr claims"
    using assms by (cases "ValidateToken (jwtUtil uc) t (now w)") (auto simp: RefreshToken_def)
  obtain r1 w1 where f0: "RefreshTokenRepositoryImpl_FindByToken t w = (r1, w1)"
    by (cases "RefreshTokenRepositoryImpl_FindByToken t w")
  obtain row where r1: "r1 = Inr row"
    using assms by (cases r1) (auto simp: RefreshToken_def v f0)
  note f = f0 [unfolded r1]
  have c: "\<not> IsRevoked row" "\<not> now w1 > RefreshToken.ExpiresAt row"
    using assms by (auto simp: RefreshToken_def v f split: if_splits)
  obtain userID where o: "ObjectIDFromHex (JWTClaims.UserID claims) = Inr userID"
    using assms c by (cases "ObjectIDFromHex (JWTClaims.UserID claims)")
      (auto simp: RefreshToken_def v f)
  obtain r2 w2 where u0: "UserRepositoryImpl_FindByID userID w1 = (r2, w2)"
    by (cases "UserRepositoryImpl_FindByID userID w1")
  obtain user where r2: "r2 = Inr user"
    using assms c by (cases r2) (auto simp: RefreshToken_def v f o u0)
  note u = u0 [unfolded r2]
  obtain accessToken where a: "GenerateAccessToken (jwtUtil uc) (User.ID user) (User.Email user)
      (User.Role user) (now w2) = Inr accessToken"
    by (simp add: GenerateAccessToken_def SignedString_def Let_def)
  obtain newRefreshToken
    where n: "GenerateRefreshToken (jwtUtil uc) (User.ID user) (now w2) = Inr newRefreshToken"
    by (simp add: GenerateRefreshToken_def SignedString_def Let_def)
  obtain r3 w3 where k0: "RefreshTokenRepositoryImpl_Revoke t w2 = (r3, w3)"
    by (cases "RefreshTokenRepositoryImpl_Revoke t w2")
  have r3: "r3 = None"
    using assms c by (cases r3) (auto simp: RefreshToken_def v f o u a n k0)
  note k = k0 [unfolded r3]
  let ?e = "\<lparr> RefreshToken.ID = 0,
               RefreshToken.UserID = User.ID user,
               Token = newRefreshToken,
               RefreshToken.ExpiresAt = now w3 + GetRefreshTokenExpiration (jwtUtil uc),
               RefreshToken.CreatedAt = 0,
               IsRevoked = False \<rparr>"
  obtain r4 w4 where m: "RefreshTokenRepositoryImpl_Create ?e w3 = (r4, w4)"
    by (cases "RefreshTokenRepositoryImpl_Create ?e w3")
  have s: "snd (RefreshToken uc ?req w) = w4"
    using c by (cases r4) (simp_all add: RefreshToken_def v f o u a n k m Let_def)
  have "token_row w t = Some row" "refresh_tokens w1 = refresh_tokens w"
    using FindByToken_found [OF f] by simp_all
  moreover have "refresh_tokens w2 = refresh_tokens w1"
    using u by (rule tokens_FindByID)
  ultimately have "token_row w2 t = Some row"
    by (simp add: token_row_def)
  with k have "revoked_row w3 t"
    by (rule Revoke_done)
  with m have "revoked_row w4 t"
    by (rule revoked_Create_token)
  then show ?thesis
    by (simp add: s)
qed

lemma RefreshToken_revoked_fails:
  assumes "revoked_row w t"
  shows "fst (RefreshToken uc \<lparr>RefreshTokenRequest.RefreshToken = t\<rparr> w) = Inl ErrRevokedToken
       \<or> fst (RefreshToken uc \<lparr>RefreshTokenRequest.RefreshToken = t\<rparr> w) = Inl ErrInvalidToken"
proof (cases "ValidateToken (jwtUtil uc) t (now w)")
  case (Inl e)
  then show ?thesis by (simp add: RefreshToken_def)
next
  case (Inr claims)
  obtain r1 w1 where f: "RefreshTokenRepositoryImpl_FindByToken t w = (r1, w1)"
    by (cases "RefreshTokenRepositoryImpl_FindByToken t w")
  show ?thesis
  proof (cases r1)
    case (Inl e)
    then show ?thesis by (simp add: RefreshToken_def Inr f)
  next
    case r: (Inr row)
    from FindByToken_found(1) [OF f [unfolded r]] assms have "IsRevoked row"
      by (simp add: revoked_row_def)
    then show ?thesis by (simp add: RefreshToken_def Inr f r)
  qed
qed

lemma revoked_occur:
  assumes "revoked_row w t"
  shows "revoked_row (occur uc e w) t"
proof (cases e)
  case (DoLogin req)
  then show ?thesis using assms by (simp add: revoked_Login)
next
  case (DoRefreshToken req)
  then show ?thesis using assms by (simp add: revoked_RefreshToken)
qed (use assms in \<open>simp_all add: revoked_row_def token_row_def tokens_Register tokens_VerifyOTP
      tokens_ResendOTP tokens_GetUserByID tokens_CheckRateLimit tokens_IncrementCounter\<close>)

lemma revoked_run:
  "revoked_row w t \<Longrightarrow> revoked_row (run uc es w) t"
  by (induction es arbitrary: w) (simp_all add: revoked_occur)

text \<open>
  C1. For every refresh token t consumed by a successful RefreshToken call, any later
  RefreshToken call presenting the same t fails with RevokedToken or InvalidToken,
  whatever has happened in between: other requests, time passing, stores failing.
\<close>

theorem C1_revoked_token_never_refreshes:
  assumes "fst (RefreshToken uc \<lparr>RefreshTokenRequest.RefreshToken = t\<rparr> w) = Inr resp"
  shows "fst (RefreshToken uc \<lparr>RefreshTokenRequest.RefreshToken = t\<rparr>
               (run uc es (snd (RefreshToken uc \<lparr>RefreshTokenRequest.RefreshToken = t\<rparr> w))))
           = Inl ErrRevokedToken
       \<or> fst (RefreshToken uc \<lparr>RefreshTokenRequest.RefreshToken = t\<rparr>
               (run uc es (snd (RefreshToken uc \<lparr>RefreshTokenRequest.RefreshToken = t\<rparr> w))))
           = Inl ErrInvalidToken"
  by (intro RefreshToken_revoked_fails revoked_run RefreshToken_success_revokes [OF assms])

lemma hex_roundtrip_1: "ObjectIDFromHex (Hex 1) = Inr 1"
  by code_simp

lemma list_ex_revoke_first:
  "list_ex (\<lambda>x. Token x = n) (update_first P (\<lambda>r. r\<lparr>IsRevoked := True\<rparr>) xs)
     = list_ex (\<lambda>x. Token x = n) xs"
  by (induction xs) auto

lemma RefreshToken_succeeds:
  assumes f: "faults w = []"
    and v: "ValidateToken (jwtUtil uc) t (now w) = Inr claims"
    and r: "token_row w t = Some row" "\<not> IsRevoked row" "\<not> now w > RefreshToken.ExpiresAt row"
    and o: "ObjectIDFromHex (JWTClaims.UserID claims) = Inr userID"
    and u: "find (\<lambda>u. User.ID u = userID) (users w) = Some user"
    and n: "GenerateRefreshToken (jwtUtil uc) (User.ID user) (now w) = Inr newtok"
      "\<not> list_ex (\<lambda>x. Token x = newtok) (refresh_tokens w)"
  shows "\<exists>resp. fst (RefreshToken uc \<lparr>RefreshTokenRequest.RefreshToken = t\<rparr> w) = Inr resp"
proof -
  have a: "RefreshTokenRepositoryImpl_FindByToken t w = (Inr row, w)"
    using f r(1)
    by (simp add: RefreshTokenRepositoryImpl_FindByToken_def refresh_tokens_FindOne_def
        io_call_no_faults token_row_def)
  have b: "UserRepositoryImpl_FindByID userID w = (Inr user, w)"
    using f u
    by (simp add: UserRepositoryImpl_FindByID_def users_FindOne_def io_call_no_faults
        Decode_user_def)
  obtain acc where c: "GenerateAccessToken (jwtUtil uc) (User.ID user) (User.Email user)
      (User.Role user) (now w) = Inr acc"
    by (simp add: GenerateAccessToken_def SignedString_def Let_def)
  let ?w3 = "w\<lparr>refresh_tokens :=
               update_first (\<lambda>r. Token r = t) (\<lambda>r. r\<lparr>IsRevoked := True\<rparr>) (refresh_tokens w)\<rparr>"
  have d: "RefreshTokenRepositoryImpl_Revoke t w = (None, ?w3)"
    using f by (simp add: RefreshTokenRepositoryImpl_Revoke_def refresh_tokens_UpdateOne_def
        io_call_no_faults)
  have e: "\<exists>x w4. RefreshTokenRepositoryImpl_Create
             \<lparr> RefreshToken.ID = 0,
               RefreshToken.UserID = User.ID user,
               Token = newtok,
               RefreshToken.ExpiresAt = now w + GetRefreshTokenExpiration (jwtUtil uc),
               RefreshToken.CreatedAt = 0,
               IsRevoked = False \<rparr> ?w3 = (Inr x, w4)"
    using f n(2)
    by (simp add: RefreshTokenRepositoryImpl_Create_def refresh_tokens_InsertOne_def
        io_call_no_faults Let_def list_ex_revoke_first)
  then obtain x w4 where e': "RefreshTokenRepositoryImpl_Create
             \<lparr> RefreshToken.ID = 0,
               RefreshToken.UserID = User.ID user,
               Token = newtok,
               RefreshToken.ExpiresAt = now w + GetRefreshTokenExpiration (jwtUtil uc),
               RefreshToken.CreatedAt = 0,
               IsRevoked = False \<rparr> ?w3 = (Inr x, w4)"
    by blast
  show ?thesis
    using r(2,3) by (simp add: RefreshToken_def v a o b c n(1) d e' Let_def)
qed

lemma example_world_session_fields:
  "now example_world_session = 1700000000 * Second + Hour"
  "faults example_world_session = []"
  "refresh_tokens example_world_session =
     [\<lparr> RefreshToken.ID = 4,
        RefreshToken.UserID = 1,
        Token = example_refresh_token,
        RefreshToken.ExpiresAt = 1700000000 * Second + 168 * Hour,
        RefreshToken.CreatedAt = 1700000000 * Second,
        IsRevoked = False \<rparr>]"
  "users example_world_session =
     [(example_user 1 ''test@example.com'' ''+923001234567'' True True)
        \<lparr> User.LastLoginAt := Some (1700000000 * Second),
          User.UpdatedAt := 1700000000 * Second \<rparr>,
      example_user 2 ''unverified@example.com'' ''+923001234568'' False True,
      example_user 3 ''inactive@example.com'' ''+923001234569'' True False]"
  unfolding example_world_session_def run.simps occur.simps example_login_result
  by (simp_all add: example_defs time_defs)

theorem C1_revoked_token_never_refreshes_witness:
  "\<not> isl (fst (RefreshToken example_uc
                  \<lparr>RefreshTokenRequest.RefreshToken = example_refresh_token\<rparr>
                  example_world_session))
   \<and> (fst (RefreshToken example_uc
              \<lparr>RefreshTokenRequest.RefreshToken = example_refresh_token\<rparr>
              (run example_uc
                 [Elapse 1000000000, DoLogin example_login, SetFaults [True],
                  DoRefreshToken \<lparr>RefreshTokenRequest.RefreshToken = example_refresh_token\<rparr>]
                 (snd (RefreshToken example_uc
                         \<lparr>RefreshTokenRequest.RefreshToken = example_refresh_token\<rparr>
                         example_world_session))))
          = Inl ErrRevokedToken
        \<or> fst (RefreshToken example_uc
              \<lparr>RefreshTokenRequest.RefreshToken = example_refresh_token\<rparr>
              (run example_uc
                 [Elapse 1000000000, DoLogin example_login, SetFaults [True],
                  DoRefreshToken \<lparr>RefreshTokenRequest.RefreshToken = example_refresh_token\<rparr>]
                 (snd (RefreshToken example_uc
                         \<lparr>RefreshTokenRequest.RefreshToken = example_refresh_token\<rparr>
                         example_world_session))))
          = Inl ErrInvalidToken)"
proof -
  let ?row = "\<lparr> RefreshToken.ID = 4,
        RefreshToken.UserID = 1,
        Token = example_refresh_token,
        RefreshToken.ExpiresAt = 1700000000 * Second + 168 * Hour,
        RefreshToken.CreatedAt = 1700000000 * Second,
        IsRevoked = False \<rparr>"
  let ?user = "(example_user 1 ''test@example.com'' ''+923001234567'' True True)
        \<lparr> User.LastLoginAt := Some (1700000000 * Second),
          User.UpdatedAt := 1700000000 * Second \<rparr>"
  let ?claims = "\<lparr> JWTClaims.UserID = Hex 1,
                   JWTClaims.Email = [],
                   JWTClaims.Role = [],
                   JWTClaims.ExpiresAt = Some (1700000000 * Second + Hour + 168 * Hour),
                   JWTClaims.IssuedAt = Some (1700000000 * Second + Hour),
                   JWTClaims.NotBefore = Some (1700000000 * Second + Hour) \<rparr>"
  let ?newtok = "JWT HS256 ?claims (HMAC HS256 ''test-secret'' ?claims)"
  have v: "ValidateToken (jwtUtil example_uc) example_refresh_token (now example_world_session)
             = Inr example_refresh_claims"
    by (simp add: example_world_session_fields example_defs ValidateToken_def
        is_SigningMethodHMAC_def example_refresh_token_def example_refresh_claims_def time_defs)
  have r: "token_row example_world_session example_refresh_token = Some ?row"
    by (simp add: token_row_def example_world_session_fields)
  have r2: "\<not> IsRevoked ?row"
    by simp
  have r3: "\<not> now example_world_session > RefreshToken.ExpiresAt ?row"
    by (simp add: example_world_session_fields time_defs)
  have o: "ObjectIDFromHex (JWTClaims.UserID example_refresh_claims) = Inr 1"
    using hex_roundtrip_1 by (simp add: example_refresh_claims_def)
  have u: "find (\<lambda>u. User.ID u = 1) (users example_world_session) = Some ?user"
    by (simp add: example_world_session_fields example_user_def)
  have n: "GenerateRefreshToken (jwtUtil example_uc) (User.ID ?user) (now example_world_session)
             = Inr ?newtok"
    by (simp add: GenerateRefreshToken_def SignedString_def NewNumericDate_def Let_def
        example_world_session_fields example_defs time_defs)
  have n2: "\<not> list_ex (\<lambda>x. Token x = ?newtok) (refresh_tokens example_world_session)"
    by (simp add: example_world_session_fields example_refresh_token_def
        example_refresh_claims_def time_defs)
  from RefreshToken_succeeds [OF example_world_session_fields(2) v r r2 r3 o u n n2]
  obtain resp where s: "fst (RefreshToken example_uc
                  \<lparr>RefreshTokenRequest.RefreshToken = example_refresh_token\<rparr>
                  example_world_session) = Inr resp"
    by blast
  from C1_revoked_token_never_refreshes [OF s,
      of "[Elapse 1000000000, DoLogin example_login, SetFaults [True],
           DoRefreshToken \<lparr>RefreshTokenRequest.RefreshToken = example_refresh_token\<rparr>]"]
  show ?thesis
    by (simp add: s)
qed

end
